theory Spec2Isabelle
  imports Main "HOL-Library.AList" "HOL-Library.Log_Nat" "HOL-Library.Sublist"
begin

section \<open>Common data\<close>

text \<open>
  Python exceptions that the modelled functions can raise. \<open>HTTPException\<close> carries the
  status code and the detail string of \<open>fastapi.HTTPException\<close>.
\<close>

datatype py_error =
    AttributeError
  | KeyError
  | ValueError
  | TypeError
  | ZeroDivisionError
  | IntegrityError
  | RuntimeError
  | WebSocketDisconnect
  | HTTPException nat string

text \<open>
  A decoded JSON value, as \<open>websocket.receive_json()\<close> returns it. A JSON object is a
  Python \<open>dict\<close>; it is kept as an association list and read with \<open>map_of\<close>.
\<close>

datatype json =
    JNull
  | JBool bool
  | JInt int
  | JFloat rat
  | JStr string
  | JArr "json list"
  | JObj "(string \<times> json) list"

section \<open>The board relay (\<open>board_ws\<close> in main.py)\<close>

text \<open>
  A \<open>WebSocket\<close> object is compared by identity (\<open>conn != websocket\<close>), so a connection
  is modelled by its identity. The two module-level dictionaries are association lists
  in insertion order: \<open>map_of\<close> is the lookup \<open>d[k]\<close>, \<open>AList.update\<close> is the
  assignment \<open>d[k] = v\<close>.

  \<open>board_ws\<close> is a coroutine, one for each connection, and the event loop may run
  another handler wherever one awaits. A handler is therefore followed from one
  \<open>await\<close> to the next, and \<open>pc\<close> says at which \<open>await\<close> it stands and what its frame
  holds there:
  \<^item> \<open>Replaying sid ref i action\<close>: in \<open>send_json(action)\<close> of line 45. The loop of line 44
    walks a list object by index, \<open>i\<close> being the next index. The object is the session's
    history list, which later appends extend in place (\<open>ref = None\<close>), until a clear
    binds a new list to the key; from then on the loop walks the old list, which no
    one changes any more (\<open>ref = Some old\<close>).
  \<^item> \<open>Receiving sid\<close>: in \<open>receive_json()\<close> of line 49.
  \<^item> \<open>Broadcasting sid data i conn\<close>: in \<open>conn.send_json(data)\<close> of line 56, \<open>i\<close> being the
    next index of the loop of line 54 over the session's list of connections, a list
    object that is only ever changed in place.
  A handler that has returned or raised has no entry in \<open>handlers\<close>. \<open>closed\<close> holds the
  connections whose peer has gone: a \<open>send_json\<close> on one of them raises, and its
  \<open>receive_json\<close> raises \<open>WebSocketDisconnect\<close>.
\<close>

type_synonym websocket = nat

datatype pc =
    Replaying string "json list option" nat json
  | Receiving string
  | Broadcasting string json nat websocket

record relay =
  board_connections :: "(string \<times> websocket list) list"
  board_states :: "(string \<times> json list) list"
  handlers :: "(websocket \<times> pc) list"
  closed :: "websocket list"

definition empty_relay :: relay where
  "empty_relay = \<lparr>board_connections = [], board_states = [], handlers = [], closed = []\<rparr>"

text \<open>
  What one piece of a handler leaves behind: the state, the \<open>send_json\<close> calls that
  went through, each with the connection it was made on, and the exception that
  ended the handler, if one did.
\<close>

type_synonym send = "websocket \<times> json"

record outcome =
  state :: relay
  sent :: "send list"
  raised :: "py_error option"

definition idle :: "relay \<Rightarrow> outcome" where
  "idle h = \<lparr>state = h, sent = [], raised = None\<rparr>"

text \<open>The session's participant list and history, empty when the key is absent.\<close>

definition participants :: "relay \<Rightarrow> string \<Rightarrow> websocket list" where
  "participants h sid = (case map_of (board_connections h) sid of None \<Rightarrow> [] | Some conns \<Rightarrow> conns)"

definition history :: "relay \<Rightarrow> string \<Rightarrow> json list" where
  "history h sid = (case map_of (board_states h) sid of None \<Rightarrow> [] | Some actions \<Rightarrow> actions)"

definition set_handler :: "relay \<Rightarrow> websocket \<Rightarrow> pc \<Rightarrow> relay" where
  "set_handler h ws p = h\<lparr>handlers := AList.update ws p (handlers h)\<rparr>"

definition end_handler :: "relay \<Rightarrow> websocket \<Rightarrow> relay" where
  "end_handler h ws = h\<lparr>handlers := AList.delete ws (handlers h)\<rparr>"

text \<open>
  Line 44, one turn of the loop: the next action of the list under replay, or the
  end of the loop and on to \<open>receive_json\<close>.
\<close>

definition replay_next :: "relay \<Rightarrow> string \<Rightarrow> json list option \<Rightarrow> nat \<Rightarrow> pc" where
  "replay_next h sid ref i =
     (let actions = (case ref of None \<Rightarrow> history h sid | Some old \<Rightarrow> old)
      in if i < length actions then Replaying sid ref (Suc i) (actions ! i) else Receiving sid)"

text \<open>
  Lines 54 and 55: the loop skips the sender without awaiting. \<open>first_other ws conns i\<close>
  is the first connection other than \<open>ws\<close> in \<open>conns\<close>, whose head has index \<open>i\<close>, with the
  index that follows it.
\<close>

fun first_other :: "websocket \<Rightarrow> websocket list \<Rightarrow> nat \<Rightarrow> (nat \<times> websocket) option" where
  "first_other ws [] i = None"
| "first_other ws (conn # conns) i =
     (if conn \<noteq> ws then Some (Suc i, conn) else first_other ws conns (Suc i))"

definition broadcast_next :: "relay \<Rightarrow> string \<Rightarrow> websocket \<Rightarrow> json \<Rightarrow> nat \<Rightarrow> pc" where
  "broadcast_next h sid ws data i =
     (case first_other ws (drop i (participants h sid)) i of
        None \<Rightarrow> Receiving sid
      | Some (j, conn) \<Rightarrow> Broadcasting sid data j conn)"

text \<open>
  Lines 37 to 41 and the start of the loop of line 44: the connection is registered,
  and the handler goes on to send the first stored action, or to \<open>receive_json\<close> when
  there is none. Nothing is awaited in between.
\<close>

definition accept :: "relay \<Rightarrow> string \<Rightarrow> websocket \<Rightarrow> outcome" where
  "accept h lesson_block_id websocket =
     (let h1 = (if map_of (board_connections h) lesson_block_id = None
                then h\<lparr>board_connections := AList.update lesson_block_id [] (board_connections h),
                       board_states := AList.update lesson_block_id [] (board_states h)\<rparr>
                else h)
      in (case map_of (board_connections h1) lesson_block_id of
           None \<Rightarrow> \<lparr>state = h1, sent = [], raised = Some KeyError\<rparr>
         | Some conns \<Rightarrow>
             (let h2 = h1\<lparr>board_connections :=
                           AList.update lesson_block_id (conns @ [websocket]) (board_connections h1)\<rparr>
              in (case map_of (board_states h2) lesson_block_id of
                    None \<Rightarrow> \<lparr>state = h2, sent = [], raised = Some KeyError\<rparr>
                  | Some actions \<Rightarrow>
                      \<lparr>state = set_handler h2 websocket (replay_next h2 lesson_block_id None 0),
                       sent = [], raised = None\<rparr>))))"

text \<open>
  Line 45 returns: the action has gone out and the loop takes its next turn. The loop
  is outside the \<open>try\<close>, so an exception of the send ends the handler with the
  connection still registered. \<open>exn\<close> is the exception that \<open>send_json\<close> raises on a
  closed connection; which one it is depends on the web framework.
\<close>

definition replay_send ::
  "py_error \<Rightarrow> relay \<Rightarrow> websocket \<Rightarrow> string \<Rightarrow> json list option \<Rightarrow> nat \<Rightarrow> json \<Rightarrow> outcome" where
  "replay_send exn h websocket lesson_block_id ref i action =
     (if websocket \<in> set (closed h)
      then \<lparr>state = end_handler h websocket, sent = [], raised = Some exn\<rparr>
      else \<lparr>state = set_handler h websocket (replay_next h lesson_block_id ref i),
            sent = [(websocket, action)], raised = None\<rparr>)"

text \<open>\<open>data.get("type")\<close>: only a dict has \<open>get\<close>.\<close>

fun get_type :: "json \<Rightarrow> py_error + json option" where
  "get_type (JObj kvs) = Inr (map_of kvs ''type'')"
| "get_type _ = Inl AttributeError"

text \<open>
  A clear binds a new list to the session's key: the replays that walk the list bound
  until then keep the old list.
\<close>

fun detach :: "string \<Rightarrow> json list \<Rightarrow> pc \<Rightarrow> pc" where
  "detach sid old (Replaying s None i action) =
     (if s = sid then Replaying s (Some old) i action else Replaying s None i action)"
| "detach sid old p = p"

text \<open>
  Line 58, the handler of \<open>WebSocketDisconnect\<close>: \<open>list.remove\<close> takes out the first
  occurrence and raises \<open>ValueError\<close> when there is none. The handler returns.
\<close>

definition on_disconnect :: "relay \<Rightarrow> websocket \<Rightarrow> string \<Rightarrow> outcome" where
  "on_disconnect h websocket lesson_block_id =
     (case map_of (board_connections h) lesson_block_id of
        None \<Rightarrow> \<lparr>state = end_handler h websocket, sent = [], raised = Some KeyError\<rparr>
      | Some conns \<Rightarrow>
          (if websocket \<in> set conns
           then \<lparr>state = end_handler
                           (h\<lparr>board_connections :=
                                AList.update lesson_block_id (remove1 websocket conns)
                                  (board_connections h)\<rparr>)
                           websocket,
                 sent = [], raised = None\<rparr>
           else \<lparr>state = end_handler h websocket, sent = [], raised = Some ValueError\<rparr>))"

text \<open>
  Line 49 returns \<open>data\<close>; lines 50 to 53 and the start of the loop of line 54. An
  exception other than \<open>WebSocketDisconnect\<close> is not caught: the handler ends and the
  connection stays registered.
\<close>

definition on_message :: "relay \<Rightarrow> websocket \<Rightarrow> string \<Rightarrow> json \<Rightarrow> outcome" where
  "on_message h websocket lesson_block_id data =
     (case get_type data of
        Inl e \<Rightarrow> \<lparr>state = end_handler h websocket, sent = [], raised = Some e\<rparr>
      | Inr t \<Rightarrow>
          (case (if t = Some (JStr ''clear'')
                 then Some (h\<lparr>board_states := AList.update lesson_block_id [] (board_states h),
                               handlers := map (\<lambda>(ws, p). (ws, detach lesson_block_id
                                                                  (history h lesson_block_id) p))
                                             (handlers h)\<rparr>)
                 else (case map_of (board_states h) lesson_block_id of
                         None \<Rightarrow> None
                       | Some actions \<Rightarrow>
                           Some (h\<lparr>board_states :=
                                     AList.update lesson_block_id (actions @ [data]) (board_states h)\<rparr>)))
           of None \<Rightarrow> \<lparr>state = end_handler h websocket, sent = [], raised = Some KeyError\<rparr>
            | Some h1 \<Rightarrow>
                (case map_of (board_connections h1) lesson_block_id of
                   None \<Rightarrow> \<lparr>state = end_handler h1 websocket, sent = [], raised = Some KeyError\<rparr>
                 | Some conns \<Rightarrow>
                     \<lparr>state = set_handler h1 websocket
                                (broadcast_next h1 lesson_block_id websocket data 0),
                      sent = [], raised = None\<rparr>)))"

text \<open>
  Line 56 returns: the action has gone out to \<open>conn\<close> and the loop takes its next turn.
  The loop is inside the \<open>try\<close>: when the send raises \<open>WebSocketDisconnect\<close>, line 58
  runs for the sender's own connection; any other exception ends the handler.
\<close>

definition broadcast_send ::
  "py_error \<Rightarrow> relay \<Rightarrow> websocket \<Rightarrow> string \<Rightarrow> json \<Rightarrow> nat \<Rightarrow> websocket \<Rightarrow> outcome" where
  "broadcast_send exn h websocket lesson_block_id data i conn =
     (if conn \<in> set (closed h)
      then (if exn = WebSocketDisconnect then on_disconnect h websocket lesson_block_id
            else \<lparr>state = end_handler h websocket, sent = [], raised = Some exn\<rparr>)
      else \<lparr>state = set_handler h websocket (broadcast_next h lesson_block_id websocket data i),
            sent = [(conn, data)], raised = None\<rparr>)"

text \<open>
  The relay as a whole. An event is what the event loop or a peer does next: a new
  connection is accepted, a message arrives for a handler that waits for one, a
  handler is resumed from its \<open>await\<close>, or a peer goes away. An exception ends one
  handler, not the process.
\<close>

datatype event =
    Accept string websocket
  | Message websocket json
  | Resume websocket
  | Drop websocket

fun step :: "py_error \<Rightarrow> relay \<Rightarrow> event \<Rightarrow> outcome" where
  "step exn h (Accept sid ws) = accept h sid ws"
| "step exn h (Message ws data) =
     (case map_of (handlers h) ws of
        Some (Receiving sid) \<Rightarrow> if ws \<in> set (closed h) then idle h else on_message h ws sid data
      | _ \<Rightarrow> idle h)"
| "step exn h (Resume ws) =
     (case map_of (handlers h) ws of
        None \<Rightarrow> idle h
      | Some (Replaying sid ref i action) \<Rightarrow> replay_send exn h ws sid ref i action
      | Some (Receiving sid) \<Rightarrow> if ws \<in> set (closed h) then on_disconnect h ws sid else idle h
      | Some (Broadcasting sid data i conn) \<Rightarrow> broadcast_send exn h ws sid data i conn)"
| "step exn h (Drop ws) = \<lparr>state = h\<lparr>closed := ws # closed h\<rparr>, sent = [], raised = None\<rparr>"

fun run :: "py_error \<Rightarrow> relay \<Rightarrow> event list \<Rightarrow> relay \<times> send list" where
  "run exn h [] = (h, [])"
| "run exn h (e # es) =
     (let r = step exn h e; (h', out) = run exn (state r) es in (h', sent r @ out))"

text \<open>The messages that reached one connection, out of a sequence of sends.\<close>

definition received :: "websocket \<Rightarrow> send list \<Rightarrow> json list" where
  "received ws out = map snd (filter (\<lambda>s. fst s = ws) out)"

text \<open>
  The events that can happen in a state: a connection object is new and open when it
  is accepted; a message arrives only for a handler in \<open>receive_json\<close> on an open
  connection; a handler is resumed from a send, or from \<open>receive_json\<close> once its peer
  has gone; a peer can go at any time.
\<close>

fun enabled :: "relay \<Rightarrow> event \<Rightarrow> bool" where
  "enabled h (Accept sid ws) =
     (list_all (\<lambda>entry. ws \<notin> set (snd entry)) (board_connections h) \<and>
      map_of (handlers h) ws = None \<and> ws \<notin> set (closed h))"
| "enabled h (Message ws data) =
     (case map_of (handlers h) ws of Some (Receiving sid) \<Rightarrow> ws \<notin> set (closed h) | _ \<Rightarrow> False)"
| "enabled h (Resume ws) =
     (case map_of (handlers h) ws of
        None \<Rightarrow> False
      | Some (Receiving sid) \<Rightarrow> ws \<in> set (closed h)
      | Some _ \<Rightarrow> True)"
| "enabled h (Drop ws) = True"

fun valid :: "py_error \<Rightarrow> relay \<Rightarrow> event list \<Rightarrow> bool" where
  "valid exn h [] = True"
| "valid exn h (e # es) = (enabled h e \<and> valid exn (state (step exn h e)) es)"

definition is_clear :: "json \<Rightarrow> bool" where
  "is_clear data = (get_type data = Inr (Some (JStr ''clear'')))"

text \<open>
  What holds of a running handler: its connection is registered in its session, a
  broadcast is never addressed to its sender, and no action under replay is a clear.
\<close>

fun pc_ok :: "relay \<Rightarrow> websocket \<Rightarrow> pc \<Rightarrow> bool" where
  "pc_ok h ws (Replaying sid ref i action) =
     (ws \<in> set (participants h sid) \<and> \<not> is_clear action \<and>
      (case ref of None \<Rightarrow> True | Some old \<Rightarrow> list_all (\<lambda>a. \<not> is_clear a) old))"
| "pc_ok h ws (Receiving sid) = (ws \<in> set (participants h sid))"
| "pc_ok h ws (Broadcasting sid data i conn) = (ws \<in> set (participants h sid) \<and> conn \<noteq> ws)"

text \<open>
  What every state reached by the handlers satisfies: the two dictionaries have the same
  keys, no connection is registered twice in a session, no stored action is a clear,
  and every running handler is as above.
\<close>

definition relay_inv :: "relay \<Rightarrow> bool" where
  "relay_inv h \<longleftrightarrow>
     (\<forall>sid. (map_of (board_connections h) sid = None) = (map_of (board_states h) sid = None)) \<and>
     (\<forall>sid conns. map_of (board_connections h) sid = Some conns \<longrightarrow> distinct conns) \<and>
     (\<forall>sid actions. map_of (board_states h) sid = Some actions \<longrightarrow>
        list_all (\<lambda>a. \<not> is_clear a) actions) \<and>
     (\<forall>ws p. map_of (handlers h) ws = Some p \<longrightarrow> pc_ok h ws p)"

text \<open>Sample actions and runs of the relay, used to evaluate the statements below.\<close>

definition h1 :: json where
  "h1 = JObj [(''type'', JStr ''start''), (''x'', JInt 10), (''y'', JInt 20), (''tool'', JStr ''pen'')]"

definition h2 :: json where
  "h2 = JObj [(''type'', JStr ''draw''), (''x'', JInt 11), (''y'', JInt 22)]"

definition h3 :: json where
  "h3 = JObj [(''type'', JStr ''stamp''), (''shape'', JStr ''star'')]"

definition clear_action :: json where
  "clear_action = JObj [(''type'', JStr ''clear'')]"

text \<open>Connection 1 joins session S and draws two strokes.\<close>

definition two_strokes :: "event list" where
  "two_strokes = [Accept ''S'' 1, Message 1 h1, Message 1 h2]"

text \<open>Then connection 2 joins S and is replayed the strokes, and connection 3 joins T.\<close>

definition two_joined :: "event list" where
  "two_joined = two_strokes @ [Accept ''S'' 2, Resume 2, Resume 2, Accept ''T'' 3]"

text \<open>Then all three peers go, and each handler is resumed from \<open>receive_json\<close>.\<close>

definition all_left :: "event list" where
  "all_left = two_joined @ [Drop 1, Resume 1, Drop 2, Resume 2, Drop 3, Resume 3]"

text \<open>
  Connection 2 joins S after the two strokes; connection 1 sends a third action while
  the replay to 2 has sent only the first stroke.
\<close>

definition live_during_replay :: "event list" where
  "live_during_replay =
     two_strokes @ [Accept ''S'' 2, Resume 2, Message 1 h3, Resume 1, Resume 2, Resume 2]"



section \<open>Python floats\<close>

text \<open>
  A Python \<open>float\<close> is an IEEE 754 binary64 number. Every finite double is a rational,
  and an arithmetic operation returns the exact result rounded to the nearest double,
  ties to the even significand. \<open>fl\<close> is that rounding: 53 significant bits for a
  normal number, the fixed spacing \<open>2 powi (-1074)\<close> below \<open>2 powi (-1022)\<close>. Infinities
  and NaN are left out: the operands here are bounded, so no operation overflows.
  A float literal such as \<open>0.4\<close> is \<open>fl (4 / 10)\<close>; a small Python \<open>int\<close> is the same
  rational as the float it converts to.
\<close>

type_synonym float = rat

definition ilog2 :: "rat \<Rightarrow> int" where
  \<comment> \<open>the exponent \<open>e\<close> with \<open>2 powi e \<le> x < 2 powi (e + 1)\<close>, for \<open>x > 0\<close>\<close>
  "ilog2 x = (let (p, q) = quotient_of x; d = bitlen p - bitlen q
              in if 2 powi d \<le> x then d else d - 1)"

definition round_even :: "rat \<Rightarrow> int" where
  "round_even x = (let f = \<lfloor>x\<rfloor>; d = x - of_int f
                   in if d < 1 / 2 then f else if 1 / 2 < d then f + 1
                      else if even f then f else f + 1)"

definition fl :: "rat \<Rightarrow> float" where
  "fl x = (if x = 0 then 0
           else let e = max (ilog2 \<bar>x\<bar>) (- 1022); u = 2 powi (e - 52)
                in of_int (round_even (x / u)) * u)"

definition float_add :: "float \<Rightarrow> float \<Rightarrow> float" where
  "float_add a b = fl (a + b)"

definition float_sub :: "float \<Rightarrow> float \<Rightarrow> float" where
  "float_sub a b = fl (a - b)"

definition float_mul :: "float \<Rightarrow> float \<Rightarrow> float" where
  "float_mul a b = fl (a * b)"

definition float_div :: "float \<Rightarrow> float \<Rightarrow> py_error + float" where
  "float_div a b = (if b = 0 then Inl ZeroDivisionError else Inr (fl (a / b)))"

section \<open>The index calculator (services/indices.py)\<close>

text \<open>
  The sum is evaluated from left to right, one rounding for each operation. Python's
  \<open>min\<close> and \<open>max\<close> of two numbers return one of the two, as \<open>min\<close> and \<open>max\<close> do.
\<close>

definition calc_overload_index :: "float \<Rightarrow> float \<Rightarrow> float \<Rightarrow> float \<Rightarrow> float" where
  "calc_overload_index accuracy norm_time skip_rate sensory_mismatch =
     min 1 (max 0
       (float_add
          (float_add
             (float_add (float_mul (fl (4 / 10)) (float_sub 1 accuracy))
                        (float_mul (fl (3 / 10)) norm_time))
             (float_mul (fl (2 / 10)) skip_rate))
          (float_mul (fl (1 / 10)) sensory_mismatch)))"

definition calc_readiness_index :: "float \<Rightarrow> float \<Rightarrow> float \<Rightarrow> float" where
  "calc_readiness_index accuracy norm_time fatigue_proxy =
     min 1 (max 0
       (float_add
          (float_add (float_mul (fl (5 / 10)) accuracy)
                     (float_mul (fl (3 / 10)) (float_sub 1 norm_time)))
          (float_mul (fl (2 / 10)) (float_sub 1 fatigue_proxy))))"

text \<open>
  The formulas as the specification writes them, over exact numbers:
  \<open>clamp01(x) = min(1, max(0, x))\<close> and the two weighted sums.
\<close>

definition clamp01 :: "rat \<Rightarrow> rat" where
  "clamp01 x = min 1 (max 0 x)"

definition overload_formula :: "rat \<Rightarrow> rat \<Rightarrow> rat \<Rightarrow> rat \<Rightarrow> rat" where
  "overload_formula accuracy norm_time skip_rate sensory_mismatch =
     clamp01 (4 / 10 * (1 - accuracy) + 3 / 10 * norm_time + 2 / 10 * skip_rate
              + 1 / 10 * sensory_mismatch)"

definition readiness_formula :: "rat \<Rightarrow> rat \<Rightarrow> rat \<Rightarrow> rat" where
  "readiness_formula accuracy norm_time fatigue_proxy =
     clamp01 (5 / 10 * accuracy + 3 / 10 * (1 - norm_time) + 2 / 10 * (1 - fatigue_proxy))"

section \<open>The recommendation engine (services/recommendations.py)\<close>

text \<open>
  The returned dict has the two keys \<open>action\<close> and \<open>text\<close> (the field \<open>text_field\<close>). The source's string literals
  are Russian; they are given here as their UTF-8 bytes.
\<close>

record recommendation =
  action :: string
  text_field :: string

definition action_reduce :: string where
  \<comment> \<open>the Russian literal of the source, in English: reduce the difficulty\<close>
  "action_reduce =
     [CHR 0xD0, CHR 0xA1, CHR 0xD0, CHR 0xBD, CHR 0xD0, CHR 0xB8, CHR 0xD0, CHR 0xB7, CHR 0xD0,
      CHR 0xB8, CHR 0xD1, CHR 0x82, CHR 0xD1, CHR 0x8C, CHR 0x20, CHR 0xD1, CHR 0x81, CHR 0xD0,
      CHR 0xBB, CHR 0xD0, CHR 0xBE, CHR 0xD0, CHR 0xB6, CHR 0xD0, CHR 0xBD, CHR 0xD0, CHR 0xBE,
      CHR 0xD1, CHR 0x81, CHR 0xD1, CHR 0x82, CHR 0xD1, CHR 0x8C]"

definition text_reduce :: string where
  \<comment> \<open>the explanation of the first branch: high overload, reduce the difficulty\<close>
  "text_reduce =
     [CHR 0xD0, CHR 0x92, CHR 0xD1, CHR 0x8B, CHR 0xD1, CHR 0x81, CHR 0xD0, CHR 0xBE, CHR 0xD0,
      CHR 0xBA, CHR 0xD0, CHR 0xB0, CHR 0xD1, CHR 0x8F, CHR 0x20, CHR 0xD0, CHR 0xBF, CHR 0xD0,
      CHR 0xB5, CHR 0xD1, CHR 0x80, CHR 0xD0, CHR 0xB5, CHR 0xD0, CHR 0xB3, CHR 0xD1, CHR 0x80,
      CHR 0xD1, CHR 0x83, CHR 0xD0, CHR 0xB7, CHR 0xD0, CHR 0xBA, CHR 0xD0, CHR 0xB0, CHR 0x3A,
      CHR 0x20, CHR 0xD1, CHR 0x81, CHR 0xD0, CHR 0xBD, CHR 0xD0, CHR 0xB8, CHR 0xD0, CHR 0xB7,
      CHR 0xD1, CHR 0x8C, CHR 0xD1, CHR 0x82, CHR 0xD0, CHR 0xB5, CHR 0x20, CHR 0xD1, CHR 0x81,
      CHR 0xD0, CHR 0xBB, CHR 0xD0, CHR 0xBE, CHR 0xD0, CHR 0xB6, CHR 0xD0, CHR 0xBD, CHR 0xD0,
      CHR 0xBE, CHR 0xD1, CHR 0x81, CHR 0xD1, CHR 0x82, CHR 0xD1, CHR 0x8C]"

definition action_increase :: string where
  \<comment> \<open>the Russian literal of the source, in English: increase the difficulty\<close>
  "action_increase =
     [CHR 0xD0, CHR 0x9F, CHR 0xD0, CHR 0xBE, CHR 0xD0, CHR 0xB2, CHR 0xD1, CHR 0x8B, CHR 0xD1,
      CHR 0x81, CHR 0xD0, CHR 0xB8, CHR 0xD1, CHR 0x82, CHR 0xD1, CHR 0x8C, CHR 0x20, CHR 0xD1,
      CHR 0x81, CHR 0xD0, CHR 0xBB, CHR 0xD0, CHR 0xBE, CHR 0xD0, CHR 0xB6, CHR 0xD0, CHR 0xBD,
      CHR 0xD0, CHR 0xBE, CHR 0xD1, CHR 0x81, CHR 0xD1, CHR 0x82, CHR 0xD1, CHR 0x8C]"

definition text_increase :: string where
  \<comment> \<open>the explanation of the second branch: readiness is high, the tasks can be made harder\<close>
  "text_increase =
     [CHR 0xD0, CHR 0x93, CHR 0xD0, CHR 0xBE, CHR 0xD1, CHR 0x82, CHR 0xD0, CHR 0xBE, CHR 0xD0,
      CHR 0xB2, CHR 0xD0, CHR 0xBD, CHR 0xD0, CHR 0xBE, CHR 0xD1, CHR 0x81, CHR 0xD1, CHR 0x82,
      CHR 0xD1, CHR 0x8C, CHR 0x20, CHR 0xD0, CHR 0xB2, CHR 0xD1, CHR 0x8B, CHR 0xD1, CHR 0x81,
      CHR 0xD0, CHR 0xBE, CHR 0xD0, CHR 0xBA, CHR 0xD0, CHR 0xB0, CHR 0xD1, CHR 0x8F, CHR 0x3A,
      CHR 0x20, CHR 0xD0, CHR 0xBC, CHR 0xD0, CHR 0xBE, CHR 0xD0, CHR 0xB6, CHR 0xD0, CHR 0xBD,
      CHR 0xD0, CHR 0xBE, CHR 0x20, CHR 0xD1, CHR 0x83, CHR 0xD1, CHR 0x81, CHR 0xD0, CHR 0xBB,
      CHR 0xD0, CHR 0xBE, CHR 0xD0, CHR 0xB6, CHR 0xD0, CHR 0xBD, CHR 0xD0, CHR 0xB8, CHR 0xD1,
      CHR 0x82, CHR 0xD1, CHR 0x8C, CHR 0x20, CHR 0xD0, CHR 0xB7, CHR 0xD0, CHR 0xB0, CHR 0xD0,
      CHR 0xB4, CHR 0xD0, CHR 0xB0, CHR 0xD0, CHR 0xBD, CHR 0xD0, CHR 0xB8, CHR 0xD1, CHR 0x8F]"

definition action_keep :: string where
  \<comment> \<open>the Russian literal of the source, in English: leave as it is\<close>
  "action_keep =
     [CHR 0xD0, CHR 0x9E, CHR 0xD1, CHR 0x81, CHR 0xD1, CHR 0x82, CHR 0xD0, CHR 0xB0, CHR 0xD0,
      CHR 0xB2, CHR 0xD0, CHR 0xB8, CHR 0xD1, CHR 0x82, CHR 0xD1, CHR 0x8C, CHR 0x20, CHR 0xD0,
      CHR 0xBA, CHR 0xD0, CHR 0xB0, CHR 0xD0, CHR 0xBA, CHR 0x20, CHR 0xD0, CHR 0xB5, CHR 0xD1,
      CHR 0x81, CHR 0xD1, CHR 0x82, CHR 0xD1, CHR 0x8C]"

definition text_keep :: string where
  \<comment> \<open>the explanation of the last branch: the load is normal\<close>
  "text_keep =
     [CHR 0xD0, CHR 0x9D, CHR 0xD0, CHR 0xB0, CHR 0xD0, CHR 0xB3, CHR 0xD1, CHR 0x80, CHR 0xD1,
      CHR 0x83, CHR 0xD0, CHR 0xB7, CHR 0xD0, CHR 0xBA, CHR 0xD0, CHR 0xB0, CHR 0x20, CHR 0xD0,
      CHR 0xB2, CHR 0x20, CHR 0xD0, CHR 0xBD, CHR 0xD0, CHR 0xBE, CHR 0xD1, CHR 0x80, CHR 0xD0,
      CHR 0xBC, CHR 0xD0, CHR 0xB5]"

definition make_recommendation :: "float \<Rightarrow> float \<Rightarrow> recommendation" where
  "make_recommendation overload_index readiness_index =
     (if fl (7 / 10) < overload_index
      then \<lparr>action = action_reduce, text_field = text_reduce\<rparr>
      else if fl (7 / 10) < readiness_index
      then \<lparr>action = action_increase, text_field = text_increase\<rparr>
      else \<lparr>action = action_keep, text_field = text_keep\<rparr>)"

section \<open>The scoring pipeline (\<open>finish_block\<close> in main.py)\<close>

text \<open>
  The tables of models.py, one record for each row. A key is a UUID, compared only for
  equality; a nullable column is an \<open>option\<close>. \<open>datetime\<close> is a point in time.
\<close>

type_synonym uuid = nat
type_synonym datetime = nat

record neuro_profile =
  np_student_id :: uuid
  processing_speed :: "float option"
  working_memory :: "float option"
  sensory_sensitivity :: "float option"
  switch_cost :: "float option"
  stimulation_need :: "float option"
  fatigue_rate :: "float option"
  predictability_need :: "float option"
  profile_source :: "string option"

record lesson_block =
  lb_id :: uuid
  lb_student_id :: "uuid option"
  started_at :: "datetime option"
  finished_at :: "datetime option"

record task_event =
  te_id :: uuid
  te_student_id :: "uuid option"
  task_id :: "uuid option"
  te_lesson_block_id :: "uuid option"
  event_type :: "string option"
  is_correct :: "bool option"

record block_index =
  lesson_block_id :: uuid
  overload_index :: float
  readiness_index :: float

record db =
  neuro_profiles :: "neuro_profile list"
  lesson_blocks :: "lesson_block list"
  task_events :: "task_event list"
  block_indices :: "block_index list"

text \<open>The dict that \<open>compute_block_metrics\<close> returns, read at its three keys.\<close>

record metrics =
  accuracy :: float
  skip_rate :: float
  duration :: float

text \<open>The dict that \<open>finish_block\<close> returns.\<close>

record finish_response =
  resp_overload_index :: float
  resp_readiness_index :: float
  resp_recommendation :: recommendation

text \<open>
  The calls that \<open>finish_block\<close> makes on the database session and on the services, in
  the order of the source lines.
\<close>

datatype call =
    QueryLessonBlock
  | QueryTaskEvents
  | ComputeBlockMetrics
  | QueryNeuroProfile
  | NormalizeTime
  | CalcOverloadIndex
  | CalcReadinessIndex
  | Commit
  | MakeRecommendation

record finish_outcome =
  db_after :: db
  calls :: "call list"
  result :: "py_error + finish_response"

text \<open>
  \<open>db.commit()\<close> for the one pending insert and the one pending update: the row of
  \<open>block_indices\<close> is inserted unless its primary key is taken, and the block's
  \<open>finished_at\<close> is written in the same transaction.
\<close>

definition commit :: "db \<Rightarrow> uuid \<Rightarrow> datetime \<Rightarrow> block_index \<Rightarrow> py_error + db" where
  "commit d block_id now idx =
     (if lesson_block_id idx \<in> set (map lesson_block_id (block_indices d))
      then Inl IntegrityError
      else Inr (d\<lparr>lesson_blocks :=
                     map (\<lambda>b. if lb_id b = block_id then b\<lparr>finished_at := Some now\<rparr> else b)
                       (lesson_blocks d),
                  block_indices := block_indices d @ [idx]\<rparr>))"

text \<open>
  Lines 85 to 126. The modules services/metrics.py and services/profiling.py are not
  part of the sources at hand, so \<open>compute_block_metrics\<close> and \<open>normalize_time\<close> are
  parameters: any function that returns a value or raises. \<open>now\<close> is the value of
  \<open>datetime.utcnow()\<close>. An exception leaves the request without a commit, and the
  session is closed by \<open>get_db\<close>: the database is as it was.
\<close>

definition finish_block ::
  "(task_event list \<Rightarrow> py_error + metrics) \<Rightarrow> (float \<Rightarrow> float option \<Rightarrow> py_error + float) \<Rightarrow>
   datetime \<Rightarrow> uuid \<Rightarrow> db \<Rightarrow> finish_outcome" where
  "finish_block compute_block_metrics normalize_time now block_id d =
     (case find (\<lambda>b. lb_id b = block_id) (lesson_blocks d) of
        None \<Rightarrow>
          \<lparr>db_after = d, calls = [QueryLessonBlock],
           result = Inl (HTTPException 404 ''lesson block not found'')\<rparr>
      | Some block \<Rightarrow>
          (let events = filter (\<lambda>e. te_lesson_block_id e = Some block_id) (task_events d) in
           if events = []
           then \<lparr>db_after = d, calls = [QueryLessonBlock, QueryTaskEvents],
                 result = Inl (HTTPException 400 ''no events'')\<rparr>
           else
             (case compute_block_metrics events of
                Inl e \<Rightarrow>
                  \<lparr>db_after = d, calls = [QueryLessonBlock, QueryTaskEvents, ComputeBlockMetrics],
                   result = Inl e\<rparr>
              | Inr m \<Rightarrow>
                  (case find (\<lambda>p. Some (np_student_id p) = lb_student_id block) (neuro_profiles d) of
                     None \<Rightarrow>
                       \<lparr>db_after = d,
                        calls = [QueryLessonBlock, QueryTaskEvents, ComputeBlockMetrics,
                                 QueryNeuroProfile],
                        result = Inl (HTTPException 400 ''neuro profile not found'')\<rparr>
                   | Some profile \<Rightarrow>
                       (case normalize_time (duration m) (processing_speed profile) of
                          Inl e \<Rightarrow>
                            \<lparr>db_after = d,
                             calls = [QueryLessonBlock, QueryTaskEvents, ComputeBlockMetrics,
                                      QueryNeuroProfile, NormalizeTime],
                             result = Inl e\<rparr>
                        | Inr norm_time \<Rightarrow>
                            (case sensory_sensitivity profile of
                               None \<Rightarrow>
                                 \<lparr>db_after = d,
                                  calls = [QueryLessonBlock, QueryTaskEvents, ComputeBlockMetrics,
                                           QueryNeuroProfile, NormalizeTime],
                                  result = Inl TypeError\<rparr>
                             | Some sensitivity \<Rightarrow>
                                 (let sensory_mismatch =
                                        \<bar>float_sub (fl (5 / 10)) (float_sub 1 sensitivity)\<bar>;
                                      fatigue_proxy = min (fl (duration m / 1800)) 1;
                                      overload = calc_overload_index (accuracy m) norm_time
                                                   (skip_rate m) sensory_mismatch;
                                      readiness = calc_readiness_index (accuracy m) norm_time
                                                    fatigue_proxy;
                                      idx = \<lparr>lesson_block_id = lb_id block,
                                             overload_index = overload,
                                             readiness_index = readiness\<rparr>
                                  in (case commit d block_id now idx of
                                        Inl e \<Rightarrow>
                                          \<lparr>db_after = d,
                                           calls = [QueryLessonBlock, QueryTaskEvents,
                                                    ComputeBlockMetrics, QueryNeuroProfile,
                                                    NormalizeTime, CalcOverloadIndex,
                                                    CalcReadinessIndex, Commit],
                                           result = Inl e\<rparr>
                                      | Inr d' \<Rightarrow>
                                          \<lparr>db_after = d',
                                           calls = [QueryLessonBlock, QueryTaskEvents,
                                                    ComputeBlockMetrics, QueryNeuroProfile,
                                                    NormalizeTime, CalcOverloadIndex,
                                                    CalcReadinessIndex, Commit,
                                                    MakeRecommendation],
                                           result = Inr \<lparr>resp_overload_index = overload,
                                                         resp_readiness_index = readiness,
                                                         resp_recommendation =
                                                           make_recommendation overload readiness\<rparr>\<rparr>))))))))"

section \<open>Stand-ins for the missing services, and sample data\<close>

text \<open>
  Modelled from the spec: \<open>compute_block_metrics\<close> of services/metrics.py, which is missing
  from the sources. Accuracy is the share of correct answers among the answer events
  (0 without any answer), the skip rate is the share of skip events among all events,
  and an empty collection is an error. The rows of \<open>task_events\<close> carry no time stamp, so
  the duration in seconds is given from outside. It is used only to evaluate
  \<open>finish_block\<close> on sample data.
\<close>

definition spec_compute_block_metrics :: "float \<Rightarrow> task_event list \<Rightarrow> py_error + metrics" where
  "spec_compute_block_metrics seconds events =
     (if events = [] then Inl ValueError
      else let answers = filter (\<lambda>e. event_type e = Some ''answer'') events;
               correct = filter (\<lambda>e. is_correct e = Some True) answers;
               skips = filter (\<lambda>e. event_type e = Some ''skip'') events
           in Inr \<lparr>accuracy = (if answers = [] then 0
                                else fl (of_nat (length correct) / of_nat (length answers))),
                   skip_rate = fl (of_nat (length skips) / of_nat (length events)),
                   duration = seconds\<rparr>)"

text \<open>
  Modelled from the spec: \<open>normalize_time\<close> of services/profiling.py, which is missing from
  the sources. The duration is divided by the processing speed and clamped into
  \<open>[0, 1]\<close>; the scale, which the spec leaves open, is taken as 1800 seconds; a missing
  or non-positive processing speed is an error. It is used only to evaluate
  \<open>finish_block\<close> on sample data.
\<close>

definition spec_normalize_time :: "float \<Rightarrow> float option \<Rightarrow> py_error + float" where
  "spec_normalize_time seconds speed =
     (case speed of
        None \<Rightarrow> Inl TypeError
      | Some s \<Rightarrow> if s \<le> 0 then Inl ValueError
                  else Inr (min 1 (max 0 (fl (fl (seconds / s) / 1800)))))"

definition sample_profile :: neuro_profile where
  "sample_profile =
     \<lparr>np_student_id = 7, processing_speed = Some 1, working_memory = None,
      sensory_sensitivity = Some (fl (5 / 10)), switch_cost = None, stimulation_need = None,
      fatigue_rate = None, predictability_need = None, profile_source = Some ''manual''\<rparr>"

definition sample_event :: "uuid \<Rightarrow> uuid \<Rightarrow> string \<Rightarrow> bool option \<Rightarrow> task_event" where
  "sample_event i block kind correct =
     \<lparr>te_id = i, te_student_id = Some 7, task_id = Some i, te_lesson_block_id = Some block,
      event_type = Some kind, is_correct = correct\<rparr>"

text \<open>
  Block 1 belongs to student 7, who has a profile, and has four answers (three correct)
  and one skip; block 2 belongs to student 8, who has no profile, and has one answer;
  block 3 has no events; there is no block 4.
\<close>

definition sample_db :: db where
  "sample_db =
     \<lparr>neuro_profiles = [sample_profile],
      lesson_blocks =
        [\<lparr>lb_id = 1, lb_student_id = Some 7, started_at = Some 100, finished_at = None\<rparr>,
         \<lparr>lb_id = 2, lb_student_id = Some 8, started_at = Some 200, finished_at = None\<rparr>,
         \<lparr>lb_id = 3, lb_student_id = Some 7, started_at = Some 300, finished_at = None\<rparr>],
      task_events =
        [sample_event 11 1 ''answer'' (Some True), sample_event 12 1 ''answer'' (Some True),
         sample_event 13 1 ''answer'' (Some False), sample_event 14 1 ''skip'' None,
         sample_event 15 1 ''answer'' (Some True), sample_event 21 2 ''answer'' (Some True)],
      block_indices = []\<rparr>"

definition sample_finish :: "uuid \<Rightarrow> finish_outcome" where
  "sample_finish block_id =
     finish_block (spec_compute_block_metrics 600) spec_normalize_time 1000 block_id sample_db"

text \<open>An aggregator that raises on every input, to see which error a request surfaces.\<close>

definition failing_metrics :: "task_event list \<Rightarrow> py_error + metrics" where
  "failing_metrics events = Inl ZeroDivisionError"

text \<open>The order of the calls of a request that succeeds.\<close>

definition pipeline_order :: "call list" where
  "pipeline_order =
     [QueryLessonBlock, QueryTaskEvents, ComputeBlockMetrics, QueryNeuroProfile, NormalizeTime,
      CalcOverloadIndex, CalcReadinessIndex, Commit, MakeRecommendation]"

section \<open>Properties of the board relay\<close>

lemma relay_inv_empty: "relay_inv empty_relay"
  by (simp add: relay_inv_def empty_relay_def)

lemma relay_inv_keys:
  "relay_inv h \<Longrightarrow> (map_of (board_connections h) sid = None) = (map_of (board_states h) sid = None)"
  by (simp add: relay_inv_def)

lemma relay_inv_distinct:
  "relay_inv h \<Longrightarrow> map_of (board_connections h) sid = Some conns \<Longrightarrow> distinct conns"
  by (simp add: relay_inv_def)

lemma relay_inv_no_clear:
  "relay_inv h \<Longrightarrow> map_of (board_states h) sid = Some actions \<Longrightarrow>
   list_all (\<lambda>a. \<not> is_clear a) actions"
  by (simp add: relay_inv_def)

lemma relay_inv_pc: "relay_inv h \<Longrightarrow> map_of (handlers h) ws = Some p \<Longrightarrow> pc_ok h ws p"
  by (simp add: relay_inv_def)

lemma history_no_clear: "relay_inv h \<Longrightarrow> list_all (\<lambda>a. \<not> is_clear a) (history h sid)"
  by (auto simp: history_def dest: relay_inv_no_clear split: option.splits)

lemma relay_invI:
  assumes "\<And>sid. (map_of (board_connections h) sid = None) = (map_of (board_states h) sid = None)"
    and "\<And>sid conns. map_of (board_connections h) sid = Some conns \<Longrightarrow> distinct conns"
    and "\<And>sid actions. map_of (board_states h) sid = Some actions \<Longrightarrow>
           list_all (\<lambda>a. \<not> is_clear a) actions"
    and "\<And>ws p. map_of (handlers h) ws = Some p \<Longrightarrow> pc_ok h ws p"
  shows "relay_inv h"
  using assms by (simp add: relay_inv_def)

text \<open>A handler's condition looks at the state through the participant lists only.\<close>

lemma pc_ok_mono:
  assumes "pc_ok h ws p" "\<And>sid. set (participants h sid) \<subseteq> set (participants h' sid)"
  shows "pc_ok h' ws p"
  using assms by (cases p) auto

lemma pc_ok_still:
  assumes "pc_ok h ws p" "\<And>sid. ws \<in> set (participants h sid) \<Longrightarrow> ws \<in> set (participants h' sid)"
  shows "pc_ok h' ws p"
  using assms by (cases p) auto

lemma first_other_other:
  "first_other ws conns i = Some (j, conn) \<Longrightarrow> conn \<noteq> ws \<and> conn \<in> set conns"
  by (induction conns arbitrary: i) (auto split: if_splits)

lemma pc_ok_replay_next:
  assumes "ws \<in> set (participants h sid)" "list_all (\<lambda>a. \<not> is_clear a) (history h' sid)"
    and "case ref of None \<Rightarrow> True | Some old \<Rightarrow> list_all (\<lambda>a. \<not> is_clear a) old"
  shows "pc_ok h ws (replay_next h' sid ref i)"
  using assms by (auto simp: replay_next_def Let_def list_all_length split: option.splits)

lemma pc_ok_broadcast_next:
  assumes "ws \<in> set (participants h sid)"
  shows "pc_ok h ws (broadcast_next h' sid ws data i)"
  using assms by (auto simp: broadcast_next_def dest: first_other_other split: option.splits)

lemma participants_set_handler [simp]: "participants (set_handler h ws p) sid = participants h sid"
  by (simp add: participants_def set_handler_def)

lemma participants_end_handler [simp]: "participants (end_handler h ws) sid = participants h sid"
  by (simp add: participants_def end_handler_def)

lemma history_set_handler [simp]: "history (set_handler h ws p) sid = history h sid"
  by (simp add: history_def set_handler_def)

lemma history_end_handler [simp]: "history (end_handler h ws) sid = history h sid"
  by (simp add: history_def end_handler_def)

lemma participants_update:
  "participants (h\<lparr>board_connections := AList.update sid conns (board_connections h)\<rparr>) s =
     (if s = sid then conns else participants h s)"
  by (simp add: participants_def update_conv')

lemma participants_Some: "map_of (board_connections h) sid = Some conns \<Longrightarrow> participants h sid = conns"
  by (simp add: participants_def)

lemma relay_inv_set_handler:
  assumes "relay_inv h" "pc_ok h ws p"
  shows "relay_inv (set_handler h ws p)"
proof (rule relay_invI)
  fix w q assume "map_of (handlers (set_handler h ws p)) w = Some q"
  then have "pc_ok h w q" using assms
    by (auto simp: set_handler_def update_conv' dest: relay_inv_pc split: if_splits)
  then show "pc_ok (set_handler h ws p) w q" by (rule pc_ok_mono) simp
qed (use assms(1) in \<open>auto simp: set_handler_def relay_inv_def\<close>)

lemma relay_inv_end_handler:
  assumes "relay_inv h"
  shows "relay_inv (end_handler h ws)"
proof (rule relay_invI)
  fix w q assume "map_of (handlers (end_handler h ws)) w = Some q"
  then have "pc_ok h w q" using assms
    by (auto simp: end_handler_def delete_conv' dest: relay_inv_pc split: if_splits)
  then show "pc_ok (end_handler h ws) w q" by (rule pc_ok_mono) simp
qed (use assms(1) in \<open>auto simp: end_handler_def relay_inv_def\<close>)


lemma fresh_notin:
  "list_all (\<lambda>entry. ws \<notin> set (snd entry)) al \<Longrightarrow> map_of al sid = Some conns \<Longrightarrow> ws \<notin> set conns"
  by (auto simp: list_all_iff dest!: map_of_SomeD)

lemma key_cases:
  assumes "relay_inv h"
  shows "(map_of (board_connections h) sid = None \<and> map_of (board_states h) sid = None) \<or>
         (\<exists>conns actions. map_of (board_connections h) sid = Some conns \<and>
                           map_of (board_states h) sid = Some actions)"
  using relay_inv_keys[OF assms, of sid] by (cases "map_of (board_connections h) sid") auto

lemma accept_new:
  assumes "map_of (board_connections h) sid = None"
  shows "accept h sid ws =
    \<lparr>state = set_handler
               (h\<lparr>board_connections := AList.update sid [ws] (board_connections h),
                  board_states := AList.update sid [] (board_states h)\<rparr>)
               ws (Receiving sid),
     sent = [], raised = None\<rparr>"
  using assms by (simp add: accept_def Let_def update_conv' replay_next_def history_def set_handler_def)

lemma accept_old:
  assumes "map_of (board_connections h) sid = Some conns" "map_of (board_states h) sid = Some actions"
  shows "accept h sid ws =
    \<lparr>state = set_handler
               (h\<lparr>board_connections := AList.update sid (conns @ [ws]) (board_connections h)\<rparr>)
               ws (replay_next h sid None 0),
     sent = [], raised = None\<rparr>"
  using assms by (simp add: accept_def Let_def update_conv' replay_next_def history_def)

text \<open>Registering a connection keeps what holds of the state.\<close>

lemma relay_inv_register:
  assumes "relay_inv h" "distinct conns'"
    and "set (participants h sid) \<subseteq> set conns'"
    and "map_of (board_states h) sid \<noteq> None"
  shows "relay_inv (h\<lparr>board_connections := AList.update sid conns' (board_connections h)\<rparr>)"
proof (rule relay_invI)
  let ?h' = "h\<lparr>board_connections := AList.update sid conns' (board_connections h)\<rparr>"
  fix w q assume "map_of (handlers ?h') w = Some q"
  then have "pc_ok h w q" using assms(1) by (auto dest: relay_inv_pc)
  then show "pc_ok ?h' w q"
    by (rule pc_ok_mono) (use assms(3) in \<open>auto simp: participants_def update_conv'\<close>)
qed (use assms in \<open>auto simp: relay_inv_def update_conv' split: if_splits\<close>)

lemma accept_inv:
  assumes "relay_inv h" "enabled h (Accept sid ws)"
  shows "relay_inv (state (accept h sid ws))"
proof -
  consider (new) "map_of (board_connections h) sid = None" "map_of (board_states h) sid = None"
    | (old) conns actions where "map_of (board_connections h) sid = Some conns"
        "map_of (board_states h) sid = Some actions"
    using key_cases[OF assms(1), of sid] by auto
  then show ?thesis
  proof cases
    case new
    let ?h1 = "h\<lparr>board_connections := AList.update sid [ws] (board_connections h),
                  board_states := AList.update sid [] (board_states h)\<rparr>"
    have "relay_inv ?h1"
    proof (rule relay_invI)
      fix w q assume "map_of (handlers ?h1) w = Some q"
      then have "pc_ok h w q" using assms(1) by (auto dest: relay_inv_pc)
      then show "pc_ok ?h1 w q"
        by (rule pc_ok_mono) (use new(1) in \<open>auto simp: participants_def update_conv'\<close>)
    qed (use assms(1) new in \<open>auto simp: relay_inv_def update_conv' split: if_splits\<close>)
    moreover have "pc_ok ?h1 ws (Receiving sid)"
      by (simp add: participants_def update_conv')
    ultimately show ?thesis by (simp add: accept_new[OF new(1)] relay_inv_set_handler)
  next
    case old
    let ?h2 = "h\<lparr>board_connections := AList.update sid (conns @ [ws]) (board_connections h)\<rparr>"
    have "ws \<notin> set conns" using assms(2) old(1) by (auto dest: fresh_notin)
    moreover have "distinct conns" using assms(1) old(1) by (rule relay_inv_distinct)
    ultimately have inv2: "relay_inv ?h2"
      using old by (intro relay_inv_register[OF assms(1)]) (auto simp: participants_def)
    have "ws \<in> set (participants ?h2 sid)" by (simp add: participants_def update_conv')
    then have "pc_ok ?h2 ws (replay_next h sid None 0)"
      using history_no_clear[OF assms(1), of sid] by (intro pc_ok_replay_next) auto
    then show ?thesis by (simp add: accept_old[OF old] relay_inv_set_handler[OF inv2])
  qed
qed

lemma replay_send_inv:
  assumes "relay_inv h" "map_of (handlers h) ws = Some (Replaying sid ref i act)"
  shows "relay_inv (state (replay_send exn h ws sid ref i act))"
proof -
  have ok: "pc_ok h ws (Replaying sid ref i act)" using assms by (rule relay_inv_pc)
  then have "pc_ok h ws (replay_next h sid ref i)"
    using history_no_clear[OF assms(1), of sid] by (intro pc_ok_replay_next) auto
  then show ?thesis
    using assms(1) by (simp add: replay_send_def relay_inv_set_handler relay_inv_end_handler)
qed

lemma on_disconnect_inv:
  assumes "relay_inv h"
  shows "relay_inv (state (on_disconnect h ws sid))"
proof (cases "map_of (board_connections h) sid")
  case None
  then show ?thesis using assms by (simp add: on_disconnect_def relay_inv_end_handler)
next
  case (Some conns)
  show ?thesis
  proof (cases "ws \<in> set conns")
    case False
    then show ?thesis using assms Some by (simp add: on_disconnect_def relay_inv_end_handler)
  next
    case True
    let ?h1 = "h\<lparr>board_connections := AList.update sid (remove1 ws conns) (board_connections h)\<rparr>"
    have d: "distinct conns" using assms Some by (rule relay_inv_distinct)
    have "relay_inv (end_handler ?h1 ws)"
    proof (rule relay_invI)
      fix w q assume "map_of (handlers (end_handler ?h1 ws)) w = Some q"
      then have w: "w \<noteq> ws" "map_of (handlers h) w = Some q"
        by (auto simp: end_handler_def delete_conv' split: if_splits)
      then have "pc_ok h w q" using assms by (auto dest: relay_inv_pc)
      then show "pc_ok (end_handler ?h1 ws) w q"
        by (rule pc_ok_still)
          (use w(1) participants_Some[OF Some] in \<open>auto simp: participants_update\<close>)
    qed (use assms Some d relay_inv_keys[OF assms, of sid] in
        \<open>auto simp: end_handler_def relay_inv_def update_conv' split: if_splits\<close>)
    then show ?thesis using Some True by (simp add: on_disconnect_def)
  qed
qed

lemma map_of_detach:
  "map_of (map (\<lambda>(ws, p). (ws, detach sid old p)) hs) w = map_option (detach sid old) (map_of hs w)"
  by (induction hs) auto

lemma pc_ok_detach:
  assumes "pc_ok h w q" "list_all (\<lambda>a. \<not> is_clear a) old"
    and "\<And>s. w \<in> set (participants h s) \<Longrightarrow> w \<in> set (participants h' s)"
  shows "pc_ok h' w (detach sid old q)"
  using assms by (cases "(sid, old, q)" rule: detach.cases) auto

lemma on_message_inv:
  assumes "relay_inv h" "map_of (handlers h) ws = Some (Receiving sid)"
  shows "relay_inv (state (on_message h ws sid data))"
proof -
  have reg: "ws \<in> set (participants h sid)" using relay_inv_pc[OF assms] by simp
  then obtain conns actions where k: "map_of (board_connections h) sid = Some conns"
      "map_of (board_states h) sid = Some actions"
    using key_cases[OF assms(1), of sid] by (auto simp: participants_def)
  show ?thesis
  proof (cases "get_type data")
    case (Inl e)
    then show ?thesis using assms(1) by (simp add: on_message_def relay_inv_end_handler)
  next
    case (Inr t)
    show ?thesis
    proof (cases "t = Some (JStr ''clear'')")
      case True
      let ?h1 = "h\<lparr>board_states := AList.update sid [] (board_states h),
                    handlers := map (\<lambda>(ws, p). (ws, detach sid (history h sid) p)) (handlers h)\<rparr>"
      have inv1: "relay_inv ?h1"
      proof (rule relay_invI)
        fix w q assume "map_of (handlers ?h1) w = Some q"
        then obtain q0 where q0: "map_of (handlers h) w = Some q0" "q = detach sid (history h sid) q0"
          by (auto simp: map_of_detach)
        have "pc_ok h w q0" using assms(1) q0(1) by (rule relay_inv_pc)
        then show "pc_ok ?h1 w q" unfolding q0(2)
          by (rule pc_ok_detach)
            (use history_no_clear[OF assms(1), of sid] in \<open>simp_all add: participants_def\<close>)
      qed (use assms(1) k in \<open>auto simp: relay_inv_def update_conv' split: if_splits\<close>)
      have "pc_ok ?h1 ws (broadcast_next ?h1 sid ws data 0)"
        using reg by (intro pc_ok_broadcast_next) (simp add: participants_def)
      then show ?thesis
        using Inr True k by (simp add: on_message_def relay_inv_set_handler[OF inv1])
    next
      case False
      let ?h1 = "h\<lparr>board_states := AList.update sid (actions @ [data]) (board_states h)\<rparr>"
      have nc: "\<not> is_clear data" using Inr False by (simp add: is_clear_def)
      have inv1: "relay_inv ?h1"
      proof (rule relay_invI)
        fix w q assume "map_of (handlers ?h1) w = Some q"
        then have "pc_ok h w q" using assms(1) by (auto dest: relay_inv_pc)
        then show "pc_ok ?h1 w q" by (rule pc_ok_mono) (simp add: participants_def)
      qed (use assms(1) k nc in \<open>auto simp: relay_inv_def update_conv' split: if_splits\<close>)
      have "pc_ok ?h1 ws (broadcast_next ?h1 sid ws data 0)"
        using reg by (intro pc_ok_broadcast_next) (simp add: participants_def)
      then show ?thesis
        using Inr False k by (simp add: on_message_def relay_inv_set_handler[OF inv1])
    qed
  qed
qed

lemma broadcast_send_inv:
  assumes "relay_inv h" "map_of (handlers h) ws = Some (Broadcasting sid data i conn)"
  shows "relay_inv (state (broadcast_send exn h ws sid data i conn))"
proof -
  have "ws \<in> set (participants h sid)" using relay_inv_pc[OF assms] by simp
  then have "pc_ok h ws (broadcast_next h sid ws data i)" by (rule pc_ok_broadcast_next)
  then show ?thesis
    using assms(1)
    by (simp add: broadcast_send_def relay_inv_set_handler relay_inv_end_handler on_disconnect_inv)
qed

lemma drop_inv:
  assumes "relay_inv h"
  shows "relay_inv (h\<lparr>closed := ws # closed h\<rparr>)"
proof (rule relay_invI)
  fix w q assume "map_of (handlers (h\<lparr>closed := ws # closed h\<rparr>)) w = Some q"
  then have "pc_ok h w q" using assms by (auto dest: relay_inv_pc)
  then show "pc_ok (h\<lparr>closed := ws # closed h\<rparr>) w q" by (rule pc_ok_mono) (simp add: participants_def)
qed (use assms in \<open>auto simp: relay_inv_def\<close>)

lemma step_inv: "relay_inv h \<Longrightarrow> enabled h e \<Longrightarrow> relay_inv (state (step exn h e))"
proof (cases e)
  case (Accept sid ws)
  assume "relay_inv h" "enabled h e"
  then show ?thesis using Accept by (simp add: accept_inv)
next
  case (Message ws data)
  assume "relay_inv h" "enabled h e"
  then show ?thesis using Message
    by (auto simp: idle_def on_message_inv split: option.splits pc.splits)
next
  case (Resume ws)
  assume "relay_inv h" "enabled h e"
  then show ?thesis using Resume
    by (auto simp: idle_def replay_send_inv broadcast_send_inv on_disconnect_inv
        split: option.splits pc.splits)
next
  case (Drop ws)
  assume "relay_inv h" "enabled h e"
  then show ?thesis using Drop by (simp add: drop_inv)
qed

lemma run_inv: "relay_inv h \<Longrightarrow> valid exn h es \<Longrightarrow> relay_inv (fst (run exn h es))"
proof (induction es arbitrary: h)
  case Nil
  then show ?case by simp
next
  case (Cons e es)
  have "relay_inv (state (step exn h e))" using Cons.prems by (simp add: step_inv)
  then have "relay_inv (fst (run exn (state (step exn h e)) es))" using Cons.prems Cons.IH by simp
  then show ?case by (cases "run exn (state (step exn h e)) es") (simp add: Let_def)
qed

lemma reached_inv:
  "valid exn empty_relay es \<Longrightarrow> run exn empty_relay es = (h, out) \<Longrightarrow> relay_inv h"
  using run_inv[OF relay_inv_empty, of exn es] by simp

lemma received_append: "received ws (xs @ ys) = received ws xs @ received ws ys"
  by (simp add: received_def)

lemma received_replay: "received ws (map (Pair ws) actions) = actions"
  by (induction actions) (simp_all add: received_def)


lemma run_Cons:
  "run exn h (e # es) =
     (fst (run exn (state (step exn h e)) es),
      sent (step exn h e) @ snd (run exn (state (step exn h e)) es))"
  by (cases "run exn (state (step exn h e)) es") (simp add: Let_def)

lemma replay_next_cong:
  "history h' sid = history h sid \<Longrightarrow> replay_next h' sid ref i = replay_next h sid ref i"
  by (cases ref) (simp_all add: replay_next_def)


lemma handlers_set_handler:
  "map_of (handlers (set_handler h ws p)) w = (if w = ws then Some p else map_of (handlers h) w)"
  by (simp add: set_handler_def update_conv')


lemma frame_set_handler [simp]:
  "board_connections (set_handler h ws p) = board_connections h"
  "board_states (set_handler h ws p) = board_states h"
  "closed (set_handler h ws p) = closed h"
  by (simp_all add: set_handler_def)

lemma frame_end_handler [simp]:
  "board_connections (end_handler h ws) = board_connections h"
  "board_states (end_handler h ws) = board_states h"
  "closed (end_handler h ws) = closed h"
  by (simp_all add: end_handler_def)

text \<open>The replay loop, run without another handler in between, on an open connection.\<close>

lemma replay_run:
  assumes "map_of (handlers h) p = Some (replay_next h sid None i)"
    and "p \<notin> set (closed h)" and "i + k \<le> length (history h sid)"
  shows "\<exists>h'. run exn h (replicate k (Resume p)) =
                 (h', map (Pair p) (take k (drop i (history h sid)))) \<and>
              board_connections h' = board_connections h \<and> board_states h' = board_states h \<and>
              closed h' = closed h \<and>
              map_of (handlers h') p = Some (replay_next h sid None (i + k)) \<and>
              (\<forall>w. w \<noteq> p \<longrightarrow> map_of (handlers h') w = map_of (handlers h) w)"
  using assms
proof (induction k arbitrary: h i)
  case 0
  then show ?case by simp
next
  case (Suc k)
  let ?xs = "history h sid"
  have i: "i < length ?xs" using Suc.prems(3) by simp
  then have pc: "map_of (handlers h) p = Some (Replaying sid None (Suc i) (?xs ! i))"
    using Suc.prems(1) by (simp add: replay_next_def)
  let ?h1 = "set_handler h p (replay_next h sid None (Suc i))"
  have st: "step exn h (Resume p) = \<lparr>state = ?h1, sent = [(p, ?xs ! i)], raised = None\<rparr>"
    using pc Suc.prems(2) by (simp add: replay_send_def)
  have hist1: "history ?h1 sid = ?xs" by simp
  have "map_of (handlers ?h1) p = Some (replay_next ?h1 sid None (Suc i))"
    by (simp add: handlers_set_handler replay_next_cong[OF hist1])
  moreover have "p \<notin> set (closed ?h1)" using Suc.prems(2) by simp
  moreover have "Suc i + k \<le> length (history ?h1 sid)" using Suc.prems(3) by simp
  ultimately obtain h' where h': "run exn ?h1 (replicate k (Resume p)) =
        (h', map (Pair p) (take k (drop (Suc i) (history ?h1 sid))))"
      "board_connections h' = board_connections ?h1" "board_states h' = board_states ?h1"
      "closed h' = closed ?h1"
      "map_of (handlers h') p = Some (replay_next ?h1 sid None (Suc i + k))"
      "\<forall>w. w \<noteq> p \<longrightarrow> map_of (handlers h') w = map_of (handlers ?h1) w"
    using Suc.IH[of ?h1 "Suc i"] by blast
  have eq: "take (Suc k) (drop i ?xs) = ?xs ! i # take k (drop (Suc i) ?xs)"
    using i by (simp add: Cons_nth_drop_Suc[symmetric])
  have "run exn h (replicate (Suc k) (Resume p)) =
      (h', (p, ?xs ! i) # map (Pair p) (take k (drop (Suc i) ?xs)))"
    using h'(1) st by (simp add: run_Cons del: run.simps step.simps)
  also have "\<dots> = (h', map (Pair p) (take (Suc k) (drop i ?xs)))"
    by (simp only: eq list.map)
  finally have "run exn h (replicate (Suc k) (Resume p)) =
      (h', map (Pair p) (take (Suc k) (drop i ?xs)))" .
  then show ?case
    using h'(2-6) by (auto simp: handlers_set_handler replay_next_cong[OF hist1])
qed




lemma receiving_registered:
  assumes "relay_inv h" "map_of (handlers h) ws = Some (Receiving sid)"
  shows "\<exists>conns actions. map_of (board_connections h) sid = Some conns \<and>
           map_of (board_states h) sid = Some actions \<and> ws \<in> set conns"
  using relay_inv_pc[OF assms] key_cases[OF assms(1), of sid] by (auto simp: participants_def)

text \<open>
  Claim C2, as amended. In a state reached from the empty relay, accepting a new
  connection \<open>p\<close> on session \<open>sid\<close> registers \<open>p\<close> at the end of the session's participant
  list at once, before anything is sent. If the handler of \<open>p\<close> is then resumed \<open>k\<close> times
  with no other event in between, the sends made are the first \<open>k\<close> stored actions, in
  stored order, each to \<open>p\<close>; after as many resumptions as there are stored actions, \<open>p\<close>
  has been sent exactly the history, the history is unchanged and the handler waits in
  \<open>receive_json\<close>.
\<close>

theorem connect_replays_history:
  assumes "valid exn empty_relay es" and "run exn empty_relay es = (h, out)"
    and "enabled h (Accept sid p)"
  shows "participants (state (step exn h (Accept sid p))) sid = participants h sid @ [p] \<and>
         sent (step exn h (Accept sid p)) = [] \<and>
         (\<forall>k \<le> length (history h sid).
            snd (run exn h (Accept sid p # replicate k (Resume p))) =
              map (Pair p) (take k (history h sid))) \<and>
         (\<exists>h'. run exn h (Accept sid p # replicate (length (history h sid)) (Resume p)) =
                  (h', map (Pair p) (history h sid)) \<and>
               participants h' sid = participants h sid @ [p] \<and>
               history h' sid = history h sid \<and>
               map_of (handlers h') p = Some (Receiving sid))"
proof -
  have inv: "relay_inv h" using assms(1,2) by (rule reached_inv)
  have opn: "p \<notin> set (closed h)" using assms(3) by simp
  let ?h2 = "state (accept h sid p)"
  have acc: "sent (accept h sid p) = [] \<and> participants ?h2 sid = participants h sid @ [p] \<and>
      history ?h2 sid = history h sid \<and> closed ?h2 = closed h \<and>
      map_of (handlers ?h2) p = Some (replay_next ?h2 sid None 0)"
    using key_cases[OF inv, of sid]
    by (auto simp: accept_new accept_old participants_def history_def update_conv'
        handlers_set_handler replay_next_def)
  have loop: "\<exists>h'. run exn ?h2 (replicate k (Resume p)) =
                 (h', map (Pair p) (take k (history h sid))) \<and>
              board_connections h' = board_connections ?h2 \<and> board_states h' = board_states ?h2 \<and>
              map_of (handlers h') p = Some (replay_next ?h2 sid None k)"
    if "k \<le> length (history h sid)" for k
    using replay_run[of ?h2 p sid 0 k exn] acc opn that by auto
  have part: "snd (run exn h (Accept sid p # replicate k (Resume p))) =
      map (Pair p) (take k (history h sid))" if "k \<le> length (history h sid)" for k
    using loop[OF that] acc by (auto simp: run_Cons simp del: run.simps)
  obtain h' where h': "run exn ?h2 (replicate (length (history h sid)) (Resume p)) =
        (h', map (Pair p) (history h sid))"
      "board_connections h' = board_connections ?h2" "board_states h' = board_states ?h2"
      "map_of (handlers h') p = Some (replay_next ?h2 sid None (length (history h sid)))"
    using loop[of "length (history h sid)"] by auto
  have "run exn h (Accept sid p # replicate (length (history h sid)) (Resume p)) =
      (h', map (Pair p) (history h sid))"
    using h'(1) acc by (simp add: run_Cons del: run.simps)
  moreover have "participants h' sid = participants h sid @ [p]" "history h' sid = history h sid"
    using h'(2,3) acc by (simp_all add: participants_def history_def)
  moreover have "map_of (handlers h') p = Some (Receiving sid)"
    using h'(4) acc by (simp add: replay_next_def)
  ultimately show ?thesis using acc part by auto
qed

theorem connect_replays_history_witness:
  "valid RuntimeError empty_relay two_strokes \<and>
   enabled (fst (run RuntimeError empty_relay two_strokes)) (Accept ''S'' 2) \<and>
   history (fst (run RuntimeError empty_relay two_strokes)) ''S'' = [h1, h2] \<and>
   snd (run RuntimeError (fst (run RuntimeError empty_relay two_strokes))
          (Accept ''S'' 2 # replicate 2 (Resume 2))) = [(2, h1), (2, h2)]"
proof -
  let ?h = "fst (run RuntimeError empty_relay two_strokes)"
  have v: "valid RuntimeError empty_relay two_strokes" by code_simp
  have r: "run RuntimeError empty_relay two_strokes = (?h, snd (run RuntimeError empty_relay two_strokes))"
    by simp
  have e: "enabled ?h (Accept ''S'' 2)" by code_simp
  have hi: "history ?h ''S'' = [h1, h2]" by code_simp
  from connect_replays_history[OF v r e] have
    "\<forall>k \<le> length (history ?h ''S''). snd (run RuntimeError ?h (Accept ''S'' 2 # replicate k (Resume 2))) =
        map (Pair 2) (take k (history ?h ''S''))"
    by blast
  then have "snd (run RuntimeError ?h (Accept ''S'' 2 # replicate 2 (Resume 2))) =
      map (Pair 2) (take 2 (history ?h ''S''))"
    by (simp only: hi) simp
  then have "snd (run RuntimeError ?h (Accept ''S'' 2 # replicate 2 (Resume 2))) = [(2, h1), (2, h2)]"
    by (simp only: hi) simp
  with v e hi show ?thesis by blast
qed

text \<open>
  The claim as first stated fails when another handler runs during the replay: the
  history is \<open>[h1, h2]\<close> when connection 2 joins, and connection 2 receives
  \<open>h1, h3, h2, h3\<close>: the live action \<open>h3\<close> arrives between the replayed ones and is
  replayed once more, having been appended to the list under replay.
\<close>

theorem replay_interleaved_with_live_action:
  "valid RuntimeError empty_relay live_during_replay \<and>
   history (fst (run RuntimeError empty_relay two_strokes)) ''S'' = [h1, h2] \<and>
   received 2 (snd (run RuntimeError empty_relay live_during_replay)) = [h1, h3, h2, h3]"
proof -
  have "valid RuntimeError empty_relay live_during_replay" by code_simp
  moreover have "history (fst (run RuntimeError empty_relay two_strokes)) ''S'' = [h1, h2]"
    by code_simp
  moreover have "received 2 (snd (run RuntimeError empty_relay live_during_replay)) = [h1, h3, h2, h3]"
    by code_simp
  ultimately show ?thesis by blast
qed




text \<open>
  Claim C4. No stored action of a reached state is a clear, and no action that a replay
  is sending is one. When a handler in \<open>receive_json\<close> receives a dict whose \<open>type\<close> is
  \<open>"clear"\<close>, the session's history becomes empty in that step and the clear is not
  stored; a connection accepted on that session right after has nothing to replay: it
  is sent nothing and its handler goes straight to \<open>receive_json\<close>.
\<close>

theorem clear_resets_history:
  assumes "valid exn empty_relay es" and "run exn empty_relay es = (h, out)"
    and "map_of (handlers h) ws = Some (Receiving sid)" and "ws \<notin> set (closed h)"
    and "get_type data = Inr (Some (JStr ''clear''))"
  shows "(\<forall>sid'. \<forall>a \<in> set (history h sid'). get_type a \<noteq> Inr (Some (JStr ''clear''))) \<and>
         (\<forall>w s ref i a. map_of (handlers h) w = Some (Replaying s ref i a) \<longrightarrow>
            get_type a \<noteq> Inr (Some (JStr ''clear''))) \<and>
         (\<exists>h'. step exn h (Message ws data) = \<lparr>state = h', sent = [], raised = None\<rparr> \<and>
            map_of (board_states h') sid = Some [] \<and>
            (\<forall>p. sent (step exn h' (Accept sid p)) = [] \<and>
                 raised (step exn h' (Accept sid p)) = None \<and>
                 map_of (handlers (state (step exn h' (Accept sid p)))) p = Some (Receiving sid)))"
proof -
  have inv: "relay_inv h" using assms(1,2) by (rule reached_inv)
  obtain conns actions where reg: "map_of (board_connections h) sid = Some conns"
      "map_of (board_states h) sid = Some actions"
    using receiving_registered[OF inv assms(3)] by auto
  let ?h1 = "h\<lparr>board_states := AList.update sid [] (board_states h),
                handlers := map (\<lambda>(ws, p). (ws, detach sid (history h sid) p)) (handlers h)\<rparr>"
  let ?h' = "set_handler ?h1 ws (broadcast_next ?h1 sid ws data 0)"
  have st: "step exn h (Message ws data) = \<lparr>state = ?h', sent = [], raised = None\<rparr>"
    using assms(3-5) reg by (simp add: on_message_def)
  have emp: "map_of (board_states ?h') sid = Some []" by (simp add: update_conv')
  have con: "map_of (board_connections ?h') sid = Some conns" using reg(1) by simp
  have no_clear: "\<forall>sid'. \<forall>a \<in> set (history h sid'). get_type a \<noteq> Inr (Some (JStr ''clear''))"
    using history_no_clear[OF inv] by (auto simp: list_all_iff is_clear_def)
  have no_replay: "\<forall>w s ref i a. map_of (handlers h) w = Some (Replaying s ref i a) \<longrightarrow>
            get_type a \<noteq> Inr (Some (JStr ''clear''))"
    using relay_inv_pc[OF inv] by (fastforce simp: is_clear_def)
  have "\<forall>p. sent (step exn ?h' (Accept sid p)) = [] \<and>
             raised (step exn ?h' (Accept sid p)) = None \<and>
             map_of (handlers (state (step exn ?h' (Accept sid p)))) p = Some (Receiving sid)"
    using accept_old[OF con emp]
    by (simp add: handlers_set_handler replay_next_def history_def update_conv')
  with st emp no_clear no_replay show ?thesis by blast
qed

theorem clear_resets_history_witness:
  "valid RuntimeError empty_relay two_joined \<and>
   map_of (handlers (fst (run RuntimeError empty_relay two_joined))) 1 = Some (Receiving ''S'') \<and>
   1 \<notin> set (closed (fst (run RuntimeError empty_relay two_joined))) \<and>
   get_type clear_action = Inr (Some (JStr ''clear'')) \<and>
   history (fst (run RuntimeError empty_relay two_joined)) ''S'' = [h1, h2] \<and>
   map_of (board_states (state (step RuntimeError (fst (run RuntimeError empty_relay two_joined))
                                  (Message 1 clear_action)))) ''S'' = Some [] \<and>
   map_of (handlers (state (step RuntimeError
              (state (step RuntimeError (fst (run RuntimeError empty_relay two_joined))
                        (Message 1 clear_action)))
              (Accept ''S'' 4)))) 4 = Some (Receiving ''S'')"
proof -
  let ?h = "fst (run RuntimeError empty_relay two_joined)"
  have v: "valid RuntimeError empty_relay two_joined" by code_simp
  have r: "run RuntimeError empty_relay two_joined = (?h, snd (run RuntimeError empty_relay two_joined))"
    by simp
  have pc: "map_of (handlers ?h) 1 = Some (Receiving ''S'')" by code_simp
  have op: "1 \<notin> set (closed ?h)" by code_simp
  have t: "get_type clear_action = Inr (Some (JStr ''clear''))" by code_simp
  have hi: "history ?h ''S'' = [h1, h2]" by code_simp
  from clear_resets_history[OF v r pc op t] obtain h' where
    "step RuntimeError ?h (Message 1 clear_action) = \<lparr>state = h', sent = [], raised = None\<rparr>"
    "map_of (board_states h') ''S'' = Some []"
    "\<forall>p. sent (step RuntimeError h' (Accept ''S'' p)) = [] \<and>
         raised (step RuntimeError h' (Accept ''S'' p)) = None \<and>
         map_of (handlers (state (step RuntimeError h' (Accept ''S'' p)))) p = Some (Receiving ''S'')"
    by blast
  then have "map_of (board_states (state (step RuntimeError ?h (Message 1 clear_action)))) ''S'' = Some []"
    "map_of (handlers (state (step RuntimeError
              (state (step RuntimeError ?h (Message 1 clear_action))) (Accept ''S'' 4)))) 4 =
       Some (Receiving ''S'')"
    by simp_all
  with v pc op t hi show ?thesis by blast
qed

text \<open>Line 58 is the only place that takes a connection out, and it takes out the handler's own.\<close>

lemma registered_without_handler_stays:
  assumes inv: "relay_inv h"
    and noh: "map_of (handlers h) w = None" and reg: "w \<in> set (participants h s)"
  shows "w \<in> set (participants (state (step exn h e)) s)"
proof (cases e)
  case (Accept sid' p)
  then show ?thesis using reg key_cases[OF inv, of sid']
    by (auto simp: accept_new accept_old participants_def update_conv')
next
  case (Message w' data')
  then show ?thesis using reg
    by (auto simp: on_message_def idle_def participants_def
        split: option.splits pc.splits sum.splits)
next
  case (Resume w')
  show ?thesis
  proof (cases "map_of (handlers h) w'")
    case None
    then show ?thesis using Resume reg by (simp add: idle_def)
  next
    case (Some q)
    then have ne: "w \<noteq> w'" using noh by auto
    have dis: "w \<in> set (participants (state (on_disconnect h w' s')) s)" for s'
      using reg ne
      by (auto simp: on_disconnect_def participants_def update_conv' split: option.splits)
    show ?thesis using Resume Some reg dis
      by (cases q) (auto simp: replay_send_def broadcast_send_def idle_def)
  qed
next
  case (Drop w')
  then show ?thesis using reg by (simp add: participants_def)
qed




text \<open>
  Claim C10. In every state reached from the empty relay, \<open>board_connections\<close> and
  \<open>board_states\<close> have the same keys; no event removes a key from either; and accepting a
  connection on \<open>sid\<close> adds exactly the key \<open>sid\<close> to both.
\<close>

theorem relay_keys_agree:
  assumes "valid exn empty_relay es" and "run exn empty_relay es = (h, out)"
  shows "fst ` set (board_connections h) = fst ` set (board_states h) \<and>
         (\<forall>e. fst ` set (board_connections h) \<subseteq> fst ` set (board_connections (state (step exn h e))) \<and>
              fst ` set (board_states h) \<subseteq> fst ` set (board_states (state (step exn h e)))) \<and>
         (\<forall>sid ws. fst ` set (board_connections (state (step exn h (Accept sid ws)))) =
                     insert sid (fst ` set (board_connections h)) \<and>
                   fst ` set (board_states (state (step exn h (Accept sid ws)))) =
                     insert sid (fst ` set (board_states h)))"
proof -
  have inv: "relay_inv h" using assms(1,2) by (rule reached_inv)
  have eq: "fst ` set (board_connections h) = fst ` set (board_states h)"
    using relay_inv_keys[OF inv] by (auto simp flip: dom_map_of_conv_image_fst simp: dom_def)
  have dis: "fst ` set (board_connections h) \<subseteq> fst ` set (board_connections (state (on_disconnect h w s))) \<and>
             fst ` set (board_states h) \<subseteq> fst ` set (board_states (state (on_disconnect h w s)))" for w s
    by (auto simp: on_disconnect_def dom_update split: option.splits)
  have mono: "fst ` set (board_connections h) \<subseteq> fst ` set (board_connections (state (step exn h e))) \<and>
              fst ` set (board_states h) \<subseteq> fst ` set (board_states (state (step exn h e)))" for e
  proof (cases e)
    case (Accept sid ws)
    then show ?thesis
      by (auto simp: accept_def Let_def dom_update update_conv' split: option.splits)
  next
    case (Message ws data)
    then show ?thesis
      by (auto simp: on_message_def idle_def dom_update split: option.splits pc.splits sum.splits)
  next
    case (Resume ws)
    then show ?thesis using dis
      by (auto simp: replay_send_def broadcast_send_def idle_def split: option.splits pc.splits)
  next
    case (Drop ws)
    then show ?thesis by simp
  qed
  have con: "fst ` set (board_connections (state (step exn h (Accept sid ws)))) =
                     insert sid (fst ` set (board_connections h)) \<and>
                   fst ` set (board_states (state (step exn h (Accept sid ws)))) =
                     insert sid (fst ` set (board_states h))" for sid ws
    using key_cases[OF inv, of sid]
    by (auto simp: accept_new accept_old dom_update update_conv'
        simp flip: dom_map_of_conv_image_fst)
  from eq mono con show ?thesis by blast
qed

theorem relay_keys_agree_witness:
  "valid RuntimeError empty_relay all_left \<and>
   board_connections (fst (run RuntimeError empty_relay all_left)) = [(''S'', []), (''T'', [])] \<and>
   fst ` set (board_connections (fst (run RuntimeError empty_relay all_left))) =
     fst ` set (board_states (fst (run RuntimeError empty_relay all_left)))"
proof -
  have v: "valid RuntimeError empty_relay all_left" by code_simp
  have r: "run RuntimeError empty_relay all_left =
      (fst (run RuntimeError empty_relay all_left), snd (run RuntimeError empty_relay all_left))"
    by simp
  have b: "board_connections (fst (run RuntimeError empty_relay all_left)) = [(''S'', []), (''T'', [])]"
    by code_simp
  have k: "fst ` set (board_connections (fst (run RuntimeError empty_relay all_left))) =
      fst ` set (board_states (fst (run RuntimeError empty_relay all_left)))"
    using relay_keys_agree[OF v r] by (rule conjunct1)
  from v b k show ?thesis by (intro conjI)
qed

section \<open>Properties of the float rounding and of the index calculator\<close>

lemma round_even_err: "\<bar>of_int (round_even y) - y\<bar> \<le> 1 / 2"
proof -
  have "of_int \<lfloor>y\<rfloor> \<le> y" "y < of_int \<lfloor>y\<rfloor> + 1" by linarith+
  then show ?thesis by (auto simp: round_even_def Let_def)
qed

lemma ilog2_lower:
  assumes "0 < x"
  shows "2 powi (ilog2 x) \<le> x"
proof -
  obtain p q where pq: "quotient_of x = (p, q)" by (cases "quotient_of x")
  have q: "0 < q" using pq by (rule quotient_of_denom_pos)
  have x: "x = of_int p / of_int q" using pq by (rule quotient_of_div)
  have p: "0 < p" using assms q x by (simp add: zero_less_divide_iff)
  let ?d = "bitlen p - bitlen q"
  show ?thesis
  proof (cases "2 powi ?d \<le> x")
    case True
    then show ?thesis using pq by (simp add: ilog2_def)
  next
    case False
    have bp: "1 \<le> bitlen p" using p by (simp add: bitlen_alt_def)
    have "(2::int) ^ nat (bitlen p - 1) \<le> p" using bitlen_bounds[OF p] by simp
    then have "(of_int ((2::int) ^ nat (bitlen p - 1)) :: rat) \<le> of_int p" by (simp only: of_int_le_iff)
    then have lo: "(2::rat) powi (bitlen p - 1) \<le> of_int p"
      using bp by (simp add: power_int_def)
    have "q < (2::int) ^ nat (bitlen q)" using bitlen_bounds[OF q] by simp
    then have "(of_int q :: rat) < of_int ((2::int) ^ nat (bitlen q))" by (simp only: of_int_less_iff)
    then have hi: "of_int q < (2::rat) powi (bitlen q)"
      using bitlen_nonneg[of q] by (simp add: power_int_def)
    have "?d - 1 = (bitlen p - 1) - bitlen q" by simp
    then have "(2::rat) powi (?d - 1) = 2 powi (bitlen p - 1) / 2 powi (bitlen q)"
      by (simp only: power_int_diff[of "2::rat", simplified])
    also have "\<dots> \<le> of_int p / of_int q"
      using lo hi q p by (intro frac_le) (auto intro: less_imp_le)
    finally have "(2::rat) powi (?d - 1) \<le> x" using x by simp
    then show ?thesis using pq False by (simp add: ilog2_def)
  qed
qed

lemma fl_err_ulp:
  assumes "x \<noteq> 0"
  shows "\<bar>fl x - x\<bar> \<le> 2 powi (max (ilog2 \<bar>x\<bar>) (- 1022) - 52) / 2"
proof -
  let ?u = "(2::rat) powi (max (ilog2 \<bar>x\<bar>) (- 1022) - 52)"
  have u: "0 < ?u" by simp
  have "fl x - x = (of_int (round_even (x / ?u)) - x / ?u) * ?u"
    using assms u by (simp add: fl_def Let_def algebra_simps)
  then have "\<bar>fl x - x\<bar> = \<bar>of_int (round_even (x / ?u)) - x / ?u\<bar> * ?u"
    using u by (simp add: abs_mult)
  also have "\<dots> \<le> (1 / 2) * ?u"
    using round_even_err[of "x / ?u"] u by (intro mult_right_mono) auto
  finally show ?thesis by simp
qed

lemma fl_err:
  assumes "\<bar>x\<bar> < 2"
  shows "\<bar>fl x - x\<bar> \<le> 1 / 2 ^ 53"
proof (cases "x = 0")
  case True
  then show ?thesis by (simp add: fl_def)
next
  case False
  then have pos: "0 < \<bar>x\<bar>" by simp
  have "ilog2 \<bar>x\<bar> \<le> 0"
  proof (rule ccontr)
    assume "\<not> ilog2 \<bar>x\<bar> \<le> 0"
    then have "1 \<le> ilog2 \<bar>x\<bar>" by simp
    then have "(2::rat) powi 1 \<le> 2 powi (ilog2 \<bar>x\<bar>)" by (intro power_int_increasing) auto
    also have "\<dots> \<le> \<bar>x\<bar>" using pos by (rule ilog2_lower)
    finally show False using assms by simp
  qed
  then have "max (ilog2 \<bar>x\<bar>) (- 1022) - 52 \<le> - 52" by simp
  then have "(2::rat) powi (max (ilog2 \<bar>x\<bar>) (- 1022) - 52) \<le> 2 powi (- 52)"
    by (intro power_int_increasing) auto
  then have "(2::rat) powi (max (ilog2 \<bar>x\<bar>) (- 1022) - 52) / 2 \<le> 1 / 2 ^ 53"
    by (simp add: power_int_minus field_simps)
  with fl_err_ulp[OF False] show ?thesis by linarith
qed

lemma mul_err:
  fixes c :: rat
  assumes "\<bar>c - c0\<bar> \<le> dc" "\<bar>x - x0\<bar> \<le> dx" "\<bar>x\<bar> \<le> X" "\<bar>c0\<bar> \<le> C0"
  shows "\<bar>c * x - c0 * x0\<bar> \<le> dc * X + C0 * dx"
proof -
  have "c * x - c0 * x0 = (c - c0) * x + c0 * (x - x0)" by (simp add: algebra_simps)
  then have "\<bar>c * x - c0 * x0\<bar> \<le> \<bar>c - c0\<bar> * \<bar>x\<bar> + \<bar>c0\<bar> * \<bar>x - x0\<bar>"
    by (metis abs_mult abs_triangle_ineq)
  also have "\<dots> \<le> dc * X + C0 * dx"
    using assms by (intro add_mono mult_mono) auto
  finally show ?thesis .
qed

lemma weighted_term_err:
  assumes "0 \<le> w0" "w0 \<le> 1 / 2" "\<bar>x0\<bar> \<le> 1" "\<bar>x - x0\<bar> \<le> 1 / 2 ^ 53"
  shows "\<bar>float_mul (fl w0) x - w0 * x0\<bar> \<le> 3 / 2 ^ 53"
proof -
  have w: "\<bar>fl w0 - w0\<bar> \<le> 1 / 2 ^ 53" using assms(1,2) by (intro fl_err) simp
  have x: "\<bar>x\<bar> \<le> 1 + 1 / 2 ^ 53" using assms(3,4) by linarith
  have "\<bar>w0\<bar> \<le> 1 / 2" using assms(1,2) by simp
  from mul_err[OF w assms(4) x this]
  have p: "\<bar>fl w0 * x - w0 * x0\<bar> \<le> 1 / 2 ^ 53 * (1 + 1 / 2 ^ 53) + 1 / 2 * (1 / 2 ^ 53)" .
  have "\<bar>w0 * x0\<bar> \<le> 1 / 2 * 1"
    unfolding abs_mult using assms(1,2,3) by (intro mult_mono) auto
  then have "\<bar>fl w0 * x\<bar> \<le> 1 / 2 ^ 53 * (1 + 1 / 2 ^ 53) + 1 / 2 * (1 / 2 ^ 53) + 1 / 2"
    using p by linarith
  then have "\<bar>fl w0 * x\<bar> < 2" by simp
  then have "\<bar>fl (fl w0 * x) - fl w0 * x\<bar> \<le> 1 / 2 ^ 53" by (rule fl_err)
  then have "\<bar>fl (fl w0 * x) - w0 * x0\<bar>
      \<le> 1 / 2 ^ 53 * (1 + 1 / 2 ^ 53) + 1 / 2 * (1 / 2 ^ 53) + 1 / 2 ^ 53"
    using p by linarith
  then show ?thesis unfolding float_mul_def by simp
qed

lemma sub_err:
  assumes "0 \<le> x" "x \<le> 1"
  shows "\<bar>float_sub 1 x - (1 - x)\<bar> \<le> 1 / 2 ^ 53" "\<bar>1 - x\<bar> \<le> 1"
proof -
  have "\<bar>1 - x\<bar> < 2" using assms by linarith
  then show "\<bar>float_sub 1 x - (1 - x)\<bar> \<le> 1 / 2 ^ 53"
    unfolding float_sub_def by (rule fl_err)
  show "\<bar>1 - x\<bar> \<le> 1" using assms by linarith
qed

lemma add_err:
  assumes "\<bar>a - a0\<bar> \<le> da" "\<bar>b - b0\<bar> \<le> db" "\<bar>a0 + b0\<bar> \<le> 1" "da + db \<le> 1 / 2"
  shows "\<bar>float_add a b - (a0 + b0)\<bar> \<le> da + db + 1 / 2 ^ 53"
proof -
  have "\<bar>a + b\<bar> < 2" using assms by linarith
  then have "\<bar>fl (a + b) - (a + b)\<bar> \<le> 1 / 2 ^ 53" by (rule fl_err)
  then show ?thesis unfolding float_add_def using assms(1,2) by linarith
qed

lemma clamp_err: "\<bar>min 1 (max 0 x) - clamp01 y\<bar> \<le> \<bar>x - y\<bar>" for x y :: rat
  by (simp add: clamp01_def min_def max_def)

lemma calc_overload_index_err:
  assumes "0 \<le> a" "a \<le> 1" "0 \<le> n" "n \<le> 1" "0 \<le> s" "s \<le> 1" "0 \<le> m" "m \<le> 1"
  shows "\<bar>calc_overload_index a n s m - overload_formula a n s m\<bar> \<le> 15 / 2 ^ 53"
proof -
  have t4: "\<bar>float_mul (fl (4 / 10)) (float_sub 1 a) - 4 / 10 * (1 - a)\<bar> \<le> 3 / 2 ^ 53"
    using sub_err[OF assms(1,2)] by (intro weighted_term_err) auto
  have t3: "\<bar>float_mul (fl (3 / 10)) n - 3 / 10 * n\<bar> \<le> 3 / 2 ^ 53"
    using assms by (intro weighted_term_err) auto
  have t2: "\<bar>float_mul (fl (2 / 10)) s - 2 / 10 * s\<bar> \<le> 3 / 2 ^ 53"
    using assms by (intro weighted_term_err) auto
  have t1: "\<bar>float_mul (fl (1 / 10)) m - 1 / 10 * m\<bar> \<le> 3 / 2 ^ 53"
    using assms by (intro weighted_term_err) auto
  have b1: "\<bar>4 / 10 * (1 - a) + 3 / 10 * n\<bar> \<le> 1"
    using assms by (simp add: abs_le_iff right_diff_distrib)
  have b2: "\<bar>4 / 10 * (1 - a) + 3 / 10 * n + 2 / 10 * s\<bar> \<le> 1"
    using assms by (simp add: abs_le_iff right_diff_distrib)
  have b3: "\<bar>4 / 10 * (1 - a) + 3 / 10 * n + 2 / 10 * s + 1 / 10 * m\<bar> \<le> 1"
    using assms by (simp add: abs_le_iff right_diff_distrib)
  have s1: "\<bar>float_add (float_mul (fl (4 / 10)) (float_sub 1 a)) (float_mul (fl (3 / 10)) n)
             - (4 / 10 * (1 - a) + 3 / 10 * n)\<bar> \<le> 3 / 2 ^ 53 + 3 / 2 ^ 53 + 1 / 2 ^ 53"
    by (rule add_err[OF t4 t3 b1]) simp
  have s2: "\<bar>float_add (float_add (float_mul (fl (4 / 10)) (float_sub 1 a))
                                   (float_mul (fl (3 / 10)) n))
                        (float_mul (fl (2 / 10)) s)
             - (4 / 10 * (1 - a) + 3 / 10 * n + 2 / 10 * s)\<bar>
            \<le> (3 / 2 ^ 53 + 3 / 2 ^ 53 + 1 / 2 ^ 53) + 3 / 2 ^ 53 + 1 / 2 ^ 53"
    by (rule add_err[OF s1 t2 b2]) simp
  have s3: "\<bar>float_add (float_add (float_add (float_mul (fl (4 / 10)) (float_sub 1 a))
                                              (float_mul (fl (3 / 10)) n))
                                   (float_mul (fl (2 / 10)) s))
                        (float_mul (fl (1 / 10)) m)
             - (4 / 10 * (1 - a) + 3 / 10 * n + 2 / 10 * s + 1 / 10 * m)\<bar>
            \<le> ((3 / 2 ^ 53 + 3 / 2 ^ 53 + 1 / 2 ^ 53) + 3 / 2 ^ 53 + 1 / 2 ^ 53) + 3 / 2 ^ 53
               + 1 / 2 ^ 53"
    by (rule add_err[OF s2 t1 b3]) simp
  show ?thesis
    unfolding calc_overload_index_def overload_formula_def
    using clamp_err[of "float_add (float_add (float_add (float_mul (fl (4 / 10)) (float_sub 1 a))
                                              (float_mul (fl (3 / 10)) n))
                                   (float_mul (fl (2 / 10)) s))
                        (float_mul (fl (1 / 10)) m)"
                    "4 / 10 * (1 - a) + 3 / 10 * n + 2 / 10 * s + 1 / 10 * m"] s3
    by simp
qed

lemma calc_overload_index_range: "0 \<le> calc_overload_index a n s m \<and> calc_overload_index a n s m \<le> 1"
  by (simp add: calc_overload_index_def)

text \<open>
  Claim C1, as amended. For inputs in \<open>[0, 1]\<close> the overload index lies in \<open>[0, 1]\<close> and is
  within \<open>15 / 2 ^ 53\<close> of \<open>clamp01\<close> of the exact weighted sum: it is that sum evaluated in
  binary64 arithmetic and clamped. When all four inputs are 1 the exact sum is \<open>6 / 10\<close>
  and the result is the double nearest \<open>6 / 10\<close>: nothing is clamped, and the result is
  not 1.
\<close>

theorem calc_overload_index_spec:
  assumes "0 \<le> a" "a \<le> 1" "0 \<le> n" "n \<le> 1"
    and "0 \<le> s" "s \<le> 1" "0 \<le> m" "m \<le> 1"
  shows "0 \<le> calc_overload_index a n s m \<and>
         calc_overload_index a n s m \<le> 1 \<and>
         \<bar>calc_overload_index a n s m
            - overload_formula a n s m\<bar> \<le> 15 / 2 ^ 53 \<and>
         overload_formula 1 1 1 1 = 6 / 10 \<and>
         calc_overload_index 1 1 1 1 = fl (6 / 10)"
proof -
  have "overload_formula 1 1 1 1 = 6 / 10"
    by (simp add: overload_formula_def clamp01_def)
  moreover have "calc_overload_index 1 1 1 1 = fl (6 / 10)"
    by code_simp
  ultimately show ?thesis
    using calc_overload_index_range[of a n s m]
      calc_overload_index_err[OF assms]
    by simp
qed

theorem calc_overload_index_spec_witness:
  "(0::rat) \<le> 0 \<and> (0::rat) \<le> 1 \<and> (1::rat) \<le> 1 \<and>
   overload_formula 0 1 1 1 = 1 \<and>
   calc_overload_index 0 1 1 1 = 1 - 1 / 2 ^ 53 \<and>
   \<bar>calc_overload_index 0 1 1 1 - overload_formula 0 1 1 1\<bar> \<le> 15 / 2 ^ 53"
proof -
  have f: "overload_formula 0 1 1 1 = 1" by (simp add: overload_formula_def clamp01_def)
  have c: "calc_overload_index 0 1 1 1 = 1 - 1 / 2 ^ 53" by code_simp
  from calc_overload_index_spec[of 0 1 1 1] f c show ?thesis by simp
qed

theorem calc_overload_index_all_ones:
  "calc_overload_index 1 1 1 1 = 5404319552844595 / 9007199254740992 \<and>
   calc_overload_index 1 1 1 1 \<noteq> 1"
proof -
  have "calc_overload_index 1 1 1 1 = 5404319552844595 / 9007199254740992" by code_simp
  then show ?thesis by simp
qed

text \<open>
  Claim C8. The readiness index of \<open>(accuracy, norm_time, fatigue_proxy) = (1, 0, 0)\<close> is
  exactly 1 and that of \<open>(0, 1, 1)\<close> is exactly 0, in binary64 arithmetic as in the exact
  formula.
\<close>

theorem calc_readiness_index_extremes:
  "calc_readiness_index 1 0 0 = 1 \<and> calc_readiness_index 0 1 1 = 0 \<and>
   readiness_formula 1 0 0 = 1 \<and> readiness_formula 0 1 1 = 0"
proof -
  have "calc_readiness_index 1 0 0 = 1" by code_simp
  moreover have "calc_readiness_index 0 1 1 = 0" by code_simp
  moreover have "readiness_formula 1 0 0 = 1" "readiness_formula 0 1 1 = 0"
    by (simp_all add: readiness_formula_def clamp01_def)
  ultimately show ?thesis by simp
qed

section \<open>Properties of the recommendation engine\<close>

text \<open>
  Claim C7, as amended. \<open>make_recommendation\<close> is a function of its two arguments alone
  and the first matching branch wins: an overload index above the double \<open>0.7\<close> gives the
  first action whatever the readiness index is, otherwise a readiness index above \<open>0.7\<close>
  gives the second, otherwise the third. Each result has an action and a text. The
  actions are the Russian strings of the source (in English: reduce the difficulty,
  increase the difficulty, leave as it is), not the English tags. At \<open>(0.71, 0.9)\<close> the
  result is the first action.
\<close>

theorem make_recommendation_first_match:
  "(fl (7 / 10) < overload \<longrightarrow>
      make_recommendation overload readiness =
        \<lparr>action = action_reduce, text_field = text_reduce\<rparr>) \<and>
   (\<not> fl (7 / 10) < overload \<and> fl (7 / 10) < readiness \<longrightarrow>
      make_recommendation overload readiness =
        \<lparr>action = action_increase, text_field = text_increase\<rparr>) \<and>
   (\<not> fl (7 / 10) < overload \<and> \<not> fl (7 / 10) < readiness \<longrightarrow>
      make_recommendation overload readiness =
        \<lparr>action = action_keep, text_field = text_keep\<rparr>) \<and>
   make_recommendation (fl (71 / 100)) (fl (9 / 10)) =
     \<lparr>action = action_reduce, text_field = text_reduce\<rparr>"
proof -
  have "fl (7 / 10) < fl (71 / 100)" by code_simp
  then show ?thesis by (simp add: make_recommendation_def)
qed

theorem make_recommendation_first_match_witness:
  "fl (7 / 10) < fl (8 / 10) \<and> fl (7 / 10) < fl (9 / 10) \<and>
   make_recommendation (fl (8 / 10)) (fl (9 / 10)) =
     \<lparr>action = action_reduce, text_field = text_reduce\<rparr> \<and>
   \<not> fl (7 / 10) < fl (7 / 10) \<and>
   make_recommendation (fl (7 / 10)) (fl (9 / 10)) =
     \<lparr>action = action_increase, text_field = text_increase\<rparr> \<and>
   make_recommendation (fl (7 / 10)) (fl (7 / 10)) =
     \<lparr>action = action_keep, text_field = text_keep\<rparr>"
proof -
  have a: "fl (7 / 10) < fl (8 / 10)" by code_simp
  have b: "fl (7 / 10) < fl (9 / 10)" by code_simp
  have c: "\<not> fl (7 / 10) < fl (7 / 10)" by simp
  from make_recommendation_first_match[of "fl (8 / 10)" "fl (9 / 10)"]
    make_recommendation_first_match[of "fl (7 / 10)" "fl (9 / 10)"]
    make_recommendation_first_match[of "fl (7 / 10)" "fl (7 / 10)"] a b c
  show ?thesis by blast
qed

theorem make_recommendation_action_not_english:
  "action (make_recommendation (fl (71 / 100)) (fl (9 / 10))) \<noteq> ''reduce difficulty''"
proof -
  have "fl (7 / 10) < fl (71 / 100)" by code_simp
  then show ?thesis by (simp add: make_recommendation_def action_reduce_def)
qed

section \<open>Properties of the scoring pipeline\<close>

lemma finish_block_calls_prefix:
  "prefix (calls (finish_block cbm nt now block_id d)) pipeline_order"
  by (simp add: finish_block_def pipeline_order_def Let_def
      split: option.splits sum.splits)

lemma finish_block_success_calls:
  "result (finish_block cbm nt now block_id d) = Inr resp \<Longrightarrow>
   calls (finish_block cbm nt now block_id d) = pipeline_order"
  by (auto simp: finish_block_def pipeline_order_def Let_def
      split: option.splits sum.splits if_splits)

lemma finish_block_not_found:
  "find (\<lambda>b. lb_id b = block_id) (lesson_blocks d) = None \<Longrightarrow>
   finish_block cbm nt now block_id d =
     \<lparr>db_after = d, calls = [QueryLessonBlock],
      result = Inl (HTTPException 404 ''lesson block not found'')\<rparr>"
  by (simp add: finish_block_def)

lemma finish_block_no_events:
  "find (\<lambda>b. lb_id b = block_id) (lesson_blocks d) = Some block \<Longrightarrow>
   filter (\<lambda>e. te_lesson_block_id e = Some block_id) (task_events d) = [] \<Longrightarrow>
   finish_block cbm nt now block_id d =
     \<lparr>db_after = d, calls = [QueryLessonBlock, QueryTaskEvents],
      result = Inl (HTTPException 400 ''no events'')\<rparr>"
  by (simp add: finish_block_def)

lemma finish_block_no_profile:
  "find (\<lambda>b. lb_id b = block_id) (lesson_blocks d) = Some block \<Longrightarrow>
   filter (\<lambda>e. te_lesson_block_id e = Some block_id) (task_events d) \<noteq> [] \<Longrightarrow>
   cbm (filter (\<lambda>e. te_lesson_block_id e = Some block_id) (task_events d)) = Inr m \<Longrightarrow>
   find (\<lambda>p. Some (np_student_id p) = lb_student_id block) (neuro_profiles d) = None \<Longrightarrow>
   finish_block cbm nt now block_id d =
     \<lparr>db_after = d,
      calls = [QueryLessonBlock, QueryTaskEvents, ComputeBlockMetrics, QueryNeuroProfile],
      result = Inl (HTTPException 400 ''neuro profile not found'')\<rparr>"
  by (simp add: finish_block_def Let_def)

lemma finish_block_error_db:
  "result (finish_block cbm nt now block_id d) = Inl e \<Longrightarrow>
   db_after (finish_block cbm nt now block_id d) = d"
  by (auto simp: finish_block_def Let_def
      split: option.splits sum.splits if_splits)

lemma find_lb_id: "find (\<lambda>b. lb_id b = block_id) bs = Some block \<Longrightarrow> lb_id block = block_id"
  by (induction bs) (auto split: if_splits)

lemma finish_block_success_db:
  "result (finish_block cbm nt now block_id d) = Inr resp \<Longrightarrow>
   db_after (finish_block cbm nt now block_id d) =
     d\<lparr>lesson_blocks :=
          map (\<lambda>b. if lb_id b = block_id then b\<lparr>finished_at := Some now\<rparr> else b) (lesson_blocks d),
        block_indices := block_indices d @
          [\<lparr>lesson_block_id = block_id, overload_index = resp_overload_index resp,
            readiness_index = resp_readiness_index resp\<rparr>]\<rparr> \<and>
   block_id \<notin> set (map lesson_block_id (block_indices d))"
  by (auto simp: finish_block_def Let_def commit_def dest: find_lb_id
      split: option.splits sum.splits if_splits)

lemma finish_block_metrics_error:
  "find (\<lambda>b. lb_id b = block_id) (lesson_blocks d) = Some block \<Longrightarrow>
   filter (\<lambda>e. te_lesson_block_id e = Some block_id) (task_events d) \<noteq> [] \<Longrightarrow>
   cbm (filter (\<lambda>e. te_lesson_block_id e = Some block_id) (task_events d)) = Inl e \<Longrightarrow>
   finish_block cbm nt now block_id d =
     \<lparr>db_after = d, calls = [QueryLessonBlock, QueryTaskEvents, ComputeBlockMetrics],
      result = Inl e\<rparr>"
  by (simp add: finish_block_def Let_def)

lemma finish_block_normalize_error:
  "find (\<lambda>b. lb_id b = block_id) (lesson_blocks d) = Some block \<Longrightarrow>
   filter (\<lambda>e. te_lesson_block_id e = Some block_id) (task_events d) \<noteq> [] \<Longrightarrow>
   cbm (filter (\<lambda>e. te_lesson_block_id e = Some block_id) (task_events d)) = Inr m \<Longrightarrow>
   find (\<lambda>p. Some (np_student_id p) = lb_student_id block) (neuro_profiles d) = Some profile \<Longrightarrow>
   nt (duration m) (processing_speed profile) = Inl e \<Longrightarrow>
   finish_block cbm nt now block_id d =
     \<lparr>db_after = d,
      calls = [QueryLessonBlock, QueryTaskEvents, ComputeBlockMetrics, QueryNeuroProfile,
               NormalizeTime],
      result = Inl e\<rparr>"
  by (simp add: finish_block_def Let_def)

lemma finish_block_success:
  "find (\<lambda>b. lb_id b = block_id) (lesson_blocks d) = Some block \<Longrightarrow>
   filter (\<lambda>e. te_lesson_block_id e = Some block_id) (task_events d) \<noteq> [] \<Longrightarrow>
   cbm (filter (\<lambda>e. te_lesson_block_id e = Some block_id) (task_events d)) = Inr m \<Longrightarrow>
   find (\<lambda>p. Some (np_student_id p) = lb_student_id block) (neuro_profiles d) = Some profile \<Longrightarrow>
   nt (duration m) (processing_speed profile) = Inr norm_time \<Longrightarrow>
   sensory_sensitivity profile = Some sensitivity \<Longrightarrow>
   block_id \<notin> set (map lesson_block_id (block_indices d)) \<Longrightarrow>
   overload = calc_overload_index (accuracy m) norm_time (skip_rate m)
                \<bar>float_sub (fl (5 / 10)) (float_sub 1 sensitivity)\<bar> \<Longrightarrow>
   readiness = calc_readiness_index (accuracy m) norm_time (min (fl (duration m / 1800)) 1) \<Longrightarrow>
   result (finish_block cbm nt now block_id d) =
     Inr \<lparr>resp_overload_index = overload, resp_readiness_index = readiness,
          resp_recommendation = make_recommendation overload readiness\<rparr>"
  by (auto simp: finish_block_def Let_def commit_def dest: find_lb_id)

text \<open>
  Claim C5, as amended. \<open>finish_block\<close> makes its calls in one fixed order, stopping at
  the first failure: it looks up the block (404 "lesson block not found" when absent),
  fetches the block's events (400 "no events" when there are none), runs the metrics
  aggregator on the events, and only then looks up the student's profile
  (400 "neuro profile not found" when absent); the time normalizer and the two index
  functions follow, then the commit, and the recommendation engine comes last.
  The order shows in what the caller gets: an exception of the aggregator is the
  result whether or not the student has a profile, the profile error comes before any
  exception of the time normalizer, and a request that succeeds returns the indices
  computed from the aggregator's metrics and the normalized time, with the
  recommendation made from those two indices.
\<close>

theorem finish_block_order:
  assumes "r = finish_block cbm nt now block_id d"
    and "events = filter (\<lambda>e. te_lesson_block_id e = Some block_id) (task_events d)"
  shows "prefix (calls r) pipeline_order \<and>
         (\<forall>resp. result r = Inr resp \<longrightarrow> calls r = pipeline_order) \<and>
         (find (\<lambda>b. lb_id b = block_id) (lesson_blocks d) = None \<longrightarrow>
            calls r = [QueryLessonBlock] \<and>
            result r = Inl (HTTPException 404 ''lesson block not found'')) \<and>
         (\<forall>block. find (\<lambda>b. lb_id b = block_id) (lesson_blocks d) = Some block \<and> events = [] \<longrightarrow>
            calls r = [QueryLessonBlock, QueryTaskEvents] \<and>
            result r = Inl (HTTPException 400 ''no events'')) \<and>
         (\<forall>block e. find (\<lambda>b. lb_id b = block_id) (lesson_blocks d) = Some block \<and>
              events \<noteq> [] \<and> cbm events = Inl e \<longrightarrow>
            calls r = [QueryLessonBlock, QueryTaskEvents, ComputeBlockMetrics] \<and>
            result r = Inl e) \<and>
         (\<forall>block m. find (\<lambda>b. lb_id b = block_id) (lesson_blocks d) = Some block \<and>
              events \<noteq> [] \<and> cbm events = Inr m \<and>
              find (\<lambda>p. Some (np_student_id p) = lb_student_id block) (neuro_profiles d) = None \<longrightarrow>
            calls r = [QueryLessonBlock, QueryTaskEvents, ComputeBlockMetrics, QueryNeuroProfile] \<and>
            result r = Inl (HTTPException 400 ''neuro profile not found'')) \<and>
         (\<forall>block m profile e. find (\<lambda>b. lb_id b = block_id) (lesson_blocks d) = Some block \<and>
              events \<noteq> [] \<and> cbm events = Inr m \<and>
              find (\<lambda>p. Some (np_student_id p) = lb_student_id block) (neuro_profiles d) =
                Some profile \<and>
              nt (duration m) (processing_speed profile) = Inl e \<longrightarrow>
            calls r = [QueryLessonBlock, QueryTaskEvents, ComputeBlockMetrics, QueryNeuroProfile,
                       NormalizeTime] \<and>
            result r = Inl e) \<and>
         (\<forall>block m profile norm_time sensitivity.
              find (\<lambda>b. lb_id b = block_id) (lesson_blocks d) = Some block \<and>
              events \<noteq> [] \<and> cbm events = Inr m \<and>
              find (\<lambda>p. Some (np_student_id p) = lb_student_id block) (neuro_profiles d) =
                Some profile \<and>
              nt (duration m) (processing_speed profile) = Inr norm_time \<and>
              sensory_sensitivity profile = Some sensitivity \<and>
              block_id \<notin> set (map lesson_block_id (block_indices d)) \<longrightarrow>
            result r =
              Inr \<lparr>resp_overload_index =
                     calc_overload_index (accuracy m) norm_time (skip_rate m)
                       \<bar>float_sub (fl (5 / 10)) (float_sub 1 sensitivity)\<bar>,
                   resp_readiness_index =
                     calc_readiness_index (accuracy m) norm_time
                       (min (fl (duration m / 1800)) 1),
                   resp_recommendation =
                     make_recommendation
                       (calc_overload_index (accuracy m) norm_time (skip_rate m)
                          \<bar>float_sub (fl (5 / 10)) (float_sub 1 sensitivity)\<bar>)
                       (calc_readiness_index (accuracy m) norm_time
                          (min (fl (duration m / 1800)) 1))\<rparr>)"
proof -
  note defs = assms
  have a: "prefix (calls r) pipeline_order"
    unfolding defs by (rule finish_block_calls_prefix)
  have b: "\<forall>resp. result r = Inr resp \<longrightarrow> calls r = pipeline_order"
    unfolding defs using finish_block_success_calls[of cbm nt now block_id d] by blast
  have c: "find (\<lambda>b. lb_id b = block_id) (lesson_blocks d) = None \<longrightarrow>
            calls r = [QueryLessonBlock] \<and>
            result r = Inl (HTTPException 404 ''lesson block not found'')"
    unfolding defs by (simp add: finish_block_not_found)
  have e: "\<forall>block. find (\<lambda>b. lb_id b = block_id) (lesson_blocks d) = Some block \<and> events = [] \<longrightarrow>
            calls r = [QueryLessonBlock, QueryTaskEvents] \<and>
            result r = Inl (HTTPException 400 ''no events'')"
    unfolding defs by (auto simp: finish_block_no_events)
  have f: "\<forall>block e. find (\<lambda>b. lb_id b = block_id) (lesson_blocks d) = Some block \<and>
              events \<noteq> [] \<and> cbm events = Inl e \<longrightarrow>
            calls r = [QueryLessonBlock, QueryTaskEvents, ComputeBlockMetrics] \<and>
            result r = Inl e"
    unfolding defs by (auto simp: finish_block_metrics_error)
  have g: "\<forall>block m. find (\<lambda>b. lb_id b = block_id) (lesson_blocks d) = Some block \<and>
              events \<noteq> [] \<and> cbm events = Inr m \<and>
              find (\<lambda>p. Some (np_student_id p) = lb_student_id block) (neuro_profiles d) = None \<longrightarrow>
            calls r = [QueryLessonBlock, QueryTaskEvents, ComputeBlockMetrics, QueryNeuroProfile] \<and>
            result r = Inl (HTTPException 400 ''neuro profile not found'')"
    unfolding defs by (auto simp: finish_block_no_profile)
  have h: "\<forall>block m profile e. find (\<lambda>b. lb_id b = block_id) (lesson_blocks d) = Some block \<and>
              events \<noteq> [] \<and> cbm events = Inr m \<and>
              find (\<lambda>p. Some (np_student_id p) = lb_student_id block) (neuro_profiles d) =
                Some profile \<and>
              nt (duration m) (processing_speed profile) = Inl e \<longrightarrow>
            calls r = [QueryLessonBlock, QueryTaskEvents, ComputeBlockMetrics, QueryNeuroProfile,
                       NormalizeTime] \<and>
            result r = Inl e"
    unfolding defs by (auto simp: finish_block_normalize_error)
  have i: "\<forall>block m profile norm_time sensitivity.
              find (\<lambda>b. lb_id b = block_id) (lesson_blocks d) = Some block \<and>
              events \<noteq> [] \<and> cbm events = Inr m \<and>
              find (\<lambda>p. Some (np_student_id p) = lb_student_id block) (neuro_profiles d) =
                Some profile \<and>
              nt (duration m) (processing_speed profile) = Inr norm_time \<and>
              sensory_sensitivity profile = Some sensitivity \<and>
              block_id \<notin> set (map lesson_block_id (block_indices d)) \<longrightarrow>
            result r =
              Inr \<lparr>resp_overload_index =
                     calc_overload_index (accuracy m) norm_time (skip_rate m)
                       \<bar>float_sub (fl (5 / 10)) (float_sub 1 sensitivity)\<bar>,
                   resp_readiness_index =
                     calc_readiness_index (accuracy m) norm_time
                       (min (fl (duration m / 1800)) 1),
                   resp_recommendation =
                     make_recommendation
                       (calc_overload_index (accuracy m) norm_time (skip_rate m)
                          \<bar>float_sub (fl (5 / 10)) (float_sub 1 sensitivity)\<bar>)
                       (calc_readiness_index (accuracy m) norm_time
                          (min (fl (duration m / 1800)) 1))\<rparr>"
    unfolding defs by (intro allI impI, elim conjE, rule finish_block_success) simp_all
  from a b c e f g h i show ?thesis by (intro conjI)
qed

theorem finish_block_order_witness:
  "calls (sample_finish 1) = pipeline_order \<and>
   calls (sample_finish 2) =
     [QueryLessonBlock, QueryTaskEvents, ComputeBlockMetrics, QueryNeuroProfile] \<and>
   calls (sample_finish 3) = [QueryLessonBlock, QueryTaskEvents] \<and>
   calls (sample_finish 4) = [QueryLessonBlock] \<and>
   result (finish_block failing_metrics spec_normalize_time 1000 2 sample_db) =
     Inl ZeroDivisionError"
proof -
  note th = finish_block_order[OF sample_finish_def refl]
  have r1: "result (sample_finish 1) =
      Inr \<lparr>resp_overload_index = 8646911284551353 / 36028797018963968,
           resp_readiness_index = 3190049736054101 / 4503599627370496,
           resp_recommendation = \<lparr>action = action_increase, text_field = text_increase\<rparr>\<rparr>"
    by code_simp
  have "\<forall>resp. result (sample_finish 1) = Inr resp \<longrightarrow> calls (sample_finish 1) = pipeline_order"
    using th[of 1] by (elim conjE)
  then have c1: "calls (sample_finish 1) = pipeline_order" using r1 by blast
  have b2: "find (\<lambda>b. lb_id b = 2) (lesson_blocks sample_db) = Some (lesson_blocks sample_db ! 1)"
    by code_simp
  have e2: "filter (\<lambda>e. te_lesson_block_id e = Some 2) (task_events sample_db) \<noteq> []"
    by code_simp
  have m2: "spec_compute_block_metrics 600
              (filter (\<lambda>e. te_lesson_block_id e = Some 2) (task_events sample_db)) =
            Inr \<lparr>accuracy = 1, skip_rate = 0, duration = 600\<rparr>"
    by code_simp
  have p2: "find (\<lambda>p. Some (np_student_id p) = lb_student_id (lesson_blocks sample_db ! 1))
              (neuro_profiles sample_db) = None"
    by code_simp
  have "\<forall>block m. find (\<lambda>b. lb_id b = 2) (lesson_blocks sample_db) = Some block \<and>
      filter (\<lambda>e. te_lesson_block_id e = Some 2) (task_events sample_db) \<noteq> [] \<and>
      spec_compute_block_metrics 600
        (filter (\<lambda>e. te_lesson_block_id e = Some 2) (task_events sample_db)) = Inr m \<and>
      find (\<lambda>p. Some (np_student_id p) = lb_student_id block) (neuro_profiles sample_db) = None \<longrightarrow>
      calls (sample_finish 2) =
        [QueryLessonBlock, QueryTaskEvents, ComputeBlockMetrics, QueryNeuroProfile] \<and>
      result (sample_finish 2) = Inl (HTTPException 400 ''neuro profile not found'')"
    using th[of 2] by (elim conjE)
  then have c2: "calls (sample_finish 2) =
      [QueryLessonBlock, QueryTaskEvents, ComputeBlockMetrics, QueryNeuroProfile]"
    using b2 e2 m2 p2 by blast
  have b3: "find (\<lambda>b. lb_id b = 3) (lesson_blocks sample_db) = Some (lesson_blocks sample_db ! 2)"
    by code_simp
  have e3: "filter (\<lambda>e. te_lesson_block_id e = Some 3) (task_events sample_db) = []"
    by code_simp
  have "\<forall>block. find (\<lambda>b. lb_id b = 3) (lesson_blocks sample_db) = Some block \<and>
      filter (\<lambda>e. te_lesson_block_id e = Some 3) (task_events sample_db) = [] \<longrightarrow>
      calls (sample_finish 3) = [QueryLessonBlock, QueryTaskEvents] \<and>
      result (sample_finish 3) = Inl (HTTPException 400 ''no events'')"
    using th[of 3] by (elim conjE)
  then have c3: "calls (sample_finish 3) = [QueryLessonBlock, QueryTaskEvents]"
    using b3 e3 by blast
  have b4: "find (\<lambda>b. lb_id b = 4) (lesson_blocks sample_db) = None"
    by code_simp
  have "find (\<lambda>b. lb_id b = 4) (lesson_blocks sample_db) = None \<longrightarrow>
      calls (sample_finish 4) = [QueryLessonBlock] \<and>
      result (sample_finish 4) = Inl (HTTPException 404 ''lesson block not found'')"
    using th[of 4] by (elim conjE)
  then have c4: "calls (sample_finish 4) = [QueryLessonBlock]"
    using b4 by blast
  have f2: "failing_metrics (filter (\<lambda>e. te_lesson_block_id e = Some 2) (task_events sample_db)) =
      Inl ZeroDivisionError"
    by (simp add: failing_metrics_def)
  have "\<forall>block e. find (\<lambda>b. lb_id b = 2) (lesson_blocks sample_db) = Some block \<and>
      filter (\<lambda>e. te_lesson_block_id e = Some 2) (task_events sample_db) \<noteq> [] \<and>
      failing_metrics (filter (\<lambda>e. te_lesson_block_id e = Some 2) (task_events sample_db)) = Inl e \<longrightarrow>
      calls (finish_block failing_metrics spec_normalize_time 1000 2 sample_db) =
        [QueryLessonBlock, QueryTaskEvents, ComputeBlockMetrics] \<and>
      result (finish_block failing_metrics spec_normalize_time 1000 2 sample_db) = Inl e"
    using finish_block_order[OF refl refl, of failing_metrics spec_normalize_time 1000 2 sample_db]
    by (elim conjE)
  then have c5: "result (finish_block failing_metrics spec_normalize_time 1000 2 sample_db) =
      Inl ZeroDivisionError"
    using b2 e2 f2 by blast
  from c1 c2 c3 c4 c5 show ?thesis by (intro conjI)
qed

text \<open>
  The claim as first stated fails on a block whose student has no profile: the
  aggregator has run when the profile is found missing, so an aggregator that raises
  makes the request end with the aggregator's exception, not with the profile error;
  and the profile error reads "neuro profile not found".
\<close>

theorem finish_block_metrics_before_profile:
  "find (\<lambda>p. Some (np_student_id p) = Some 8) (neuro_profiles sample_db) = None \<and>
   result (finish_block failing_metrics spec_normalize_time 1000 2 sample_db) =
     Inl ZeroDivisionError \<and>
   calls (sample_finish 2) =
     [QueryLessonBlock, QueryTaskEvents, ComputeBlockMetrics, QueryNeuroProfile] \<and>
   result (sample_finish 2) = Inl (HTTPException 400 ''neuro profile not found'') \<and>
   result (sample_finish 2) \<noteq> Inl (HTTPException 400 ''profile missing'')"
proof -
  have "find (\<lambda>p. Some (np_student_id p) = Some 8) (neuro_profiles sample_db) = None"
    by code_simp
  moreover have "result (finish_block failing_metrics spec_normalize_time 1000 2 sample_db) =
      Inl ZeroDivisionError"
    by code_simp
  moreover have "calls (sample_finish 2) =
      [QueryLessonBlock, QueryTaskEvents, ComputeBlockMetrics, QueryNeuroProfile]"
    by code_simp
  moreover have "result (sample_finish 2) = Inl (HTTPException 400 ''neuro profile not found'')"
    by code_simp
  ultimately show ?thesis by simp
qed

text \<open>
  Claim C6. A request that fails, for whatever reason, leaves the database as it was:
  no row of \<open>block_indices\<close> is created and no \<open>finished_at\<close> is written. A request that
  succeeds does both in its one commit: it appends the row of the returned indices and
  stamps the block. A missing block, a block without events and a missing profile each
  give their own HTTP error.
\<close>

theorem finish_block_atomic:
  assumes "r = finish_block cbm nt now block_id d"
    and "events = filter (\<lambda>e. te_lesson_block_id e = Some block_id) (task_events d)"
  shows "(\<forall>e. result r = Inl e \<longrightarrow> db_after r = d) \<and>
         (\<forall>resp. result r = Inr resp \<longrightarrow>
            db_after r =
              d\<lparr>lesson_blocks :=
                   map (\<lambda>b. if lb_id b = block_id then b\<lparr>finished_at := Some now\<rparr> else b)
                     (lesson_blocks d),
                 block_indices := block_indices d @
                   [\<lparr>lesson_block_id = block_id, overload_index = resp_overload_index resp,
                     readiness_index = resp_readiness_index resp\<rparr>]\<rparr>) \<and>
         (find (\<lambda>b. lb_id b = block_id) (lesson_blocks d) = None \<longrightarrow>
            result r = Inl (HTTPException 404 ''lesson block not found'')) \<and>
         (\<forall>block. find (\<lambda>b. lb_id b = block_id) (lesson_blocks d) = Some block \<and> events = [] \<longrightarrow>
            result r = Inl (HTTPException 400 ''no events'')) \<and>
         (\<forall>block m. find (\<lambda>b. lb_id b = block_id) (lesson_blocks d) = Some block \<and>
              events \<noteq> [] \<and> cbm events = Inr m \<and>
              find (\<lambda>p. Some (np_student_id p) = lb_student_id block) (neuro_profiles d) = None \<longrightarrow>
            result r = Inl (HTTPException 400 ''neuro profile not found''))"
  unfolding assms
  using finish_block_error_db[of cbm nt now block_id d]
    finish_block_success_db[of cbm nt now block_id d]
  by (auto simp: finish_block_not_found finish_block_no_events finish_block_no_profile)

theorem finish_block_atomic_witness:
  "result (sample_finish 2) = Inl (HTTPException 400 ''neuro profile not found'') \<and>
   db_after (sample_finish 2) = sample_db \<and>
   result (sample_finish 1) =
     Inr \<lparr>resp_overload_index = 8646911284551353 / 36028797018963968,
          resp_readiness_index = 3190049736054101 / 4503599627370496,
          resp_recommendation = \<lparr>action = action_increase, text_field = text_increase\<rparr>\<rparr> \<and>
   map finished_at (lesson_blocks (db_after (sample_finish 1))) = [Some 1000, None, None] \<and>
   block_indices (db_after (sample_finish 1)) =
     [\<lparr>lesson_block_id = 1, overload_index = 8646911284551353 / 36028797018963968,
       readiness_index = 3190049736054101 / 4503599627370496\<rparr>]"
proof -
  note th = finish_block_atomic[OF sample_finish_def refl]
  have r2: "result (sample_finish 2) = Inl (HTTPException 400 ''neuro profile not found'')"
    by code_simp
  have d2: "db_after (sample_finish 2) = sample_db" using th[of 2] r2 by blast
  have r1: "result (sample_finish 1) =
      Inr \<lparr>resp_overload_index = 8646911284551353 / 36028797018963968,
           resp_readiness_index = 3190049736054101 / 4503599627370496,
           resp_recommendation = \<lparr>action = action_increase, text_field = text_increase\<rparr>\<rparr>"
    by code_simp
  have "db_after (sample_finish 1) =
      sample_db\<lparr>lesson_blocks :=
          map (\<lambda>b. if lb_id b = 1 then b\<lparr>finished_at := Some 1000\<rparr> else b)
            (lesson_blocks sample_db),
        block_indices := block_indices sample_db @
          [\<lparr>lesson_block_id = 1, overload_index = 8646911284551353 / 36028797018963968,
            readiness_index = 3190049736054101 / 4503599627370496\<rparr>]\<rparr>"
    using th[of 1] r1 by simp
  then have d1: "map finished_at (lesson_blocks (db_after (sample_finish 1))) = [Some 1000, None, None]"
      "block_indices (db_after (sample_finish 1)) =
        [\<lparr>lesson_block_id = 1, overload_index = 8646911284551353 / 36028797018963968,
          readiness_index = 3190049736054101 / 4503599627370496\<rparr>]"
    by (simp_all add: sample_db_def)
  from r2 d2 r1 d1 show ?thesis by blast
qed

end
